theory Spec2Isabelle
  imports Main
begin

section \<open>C strings and formatting\<close>

text \<open>
  A C string is modelled by the list of its characters before the terminating NUL.
  The comparison functions return only the sign of the difference, which is all the
  C standard fixes and all the controller looks at (it tests the result against 0).
\<close>

fun strcmp :: "string \<Rightarrow> string \<Rightarrow> int" where
  "strcmp [] [] = 0"
| "strcmp [] (y # ys) = -1"
| "strcmp (x # xs) [] = 1"
| "strcmp (x # xs) (y # ys) =
     (if x = y then strcmp xs ys
      else if (of_char x :: nat) < of_char y then -1 else 1)"

text \<open>\<open>strncmp a b n\<close> compares at most \<open>n\<close> characters and stops at a terminator.\<close>

fun strncmp :: "string \<Rightarrow> string \<Rightarrow> nat \<Rightarrow> int" where
  "strncmp a b 0 = 0"
| "strncmp [] [] (Suc n) = 0"
| "strncmp [] (y # ys) (Suc n) = -1"
| "strncmp (x # xs) [] (Suc n) = 1"
| "strncmp (x # xs) (y # ys) (Suc n) =
     (if x = y then strncmp xs ys n
      else if (of_char x :: nat) < of_char y then -1 else 1)"

text \<open>
  \<open>strncpy(dst, src, n); dst[n] = 0;\<close> leaves in \<open>dst\<close> the first \<open>n\<close> characters of
  \<open>src\<close> (all of it when it is shorter), terminated.
\<close>

definition strncpy :: "string \<Rightarrow> nat \<Rightarrow> string" where
  "strncpy src n = take n src"

text \<open>The conversion \<open>%d\<close> of \<open>snprintf\<close>.\<close>

fun digits :: "nat \<Rightarrow> string" where
  "digits n =
     (if n < 10 then [''0123456789'' ! n]
      else digits (n div 10) @ [''0123456789'' ! (n mod 10)])"

declare digits.simps [simp del]

definition fmt_d :: "int \<Rightarrow> string" where
  "fmt_d i = (if i < 0 then CHR ''-'' # digits (nat (- i)) else digits (nat i))"

text \<open>\<open>snprintf(buf, n, ...)\<close> keeps at most \<open>n - 1\<close> characters of the formatted text.\<close>

definition snprintf :: "nat \<Rightarrow> string \<Rightarrow> string" where
  "snprintf n str = take (n - 1) str"

section \<open>Constants of the headers\<close>

text \<open>
  The controller's header and \<open>NetdConstants.h\<close> are not part of the sources at hand, so
  the constants they declare are parameters of the model: the capacity of the pool, the
  kernel's bound on interface names, the number of the first secondary table and the
  path of the \<open>ip\<close> tool.
\<close>

record constants =
  INTERFACES_TRACKED :: nat
  IFNAMSIZ :: nat
  BASE_TABLE_NUMBER :: int
  IP_PATH :: string

text \<open>
  Modelled from the spec: the action words \<open>ADD\<close> and \<open>DEL\<close> of \<open>NetdConstants.h\<close>, which
  the command shapes of the specification give as \<open>add\<close> and \<open>del\<close>.
\<close>

definition ADD :: string where
  "ADD = ''add''"

definition DEL :: string where
  "DEL = ''del''"

text \<open>The two chain names the source file defines.\<close>

definition LOCAL_MANGLE_OUTPUT :: string where
  "LOCAL_MANGLE_OUTPUT = ''st_mangle_OUTPUT''"

definition LOCAL_NAT_POSTROUTING :: string where
  "LOCAL_NAT_POSTROUTING = ''st_nat_POSTROUTING''"

text \<open>
  The firewall rule-sets \<open>execIptables\<close> can address, the two values the controller stores
  in \<open>errno\<close>, and the two response codes it sends.
\<close>

datatype IptablesTarget = V4 | V6 | V4V6

datatype errno = ENODEV | EINVAL

datatype ResponseCode = CommandOkay | OperationFailed

section \<open>Machine integers\<close>

text \<open>
  The rule counts are C++ \<open>int\<close>s of 32 bits. They are modelled as integers, and every
  increment and decrement stores its result through \<open>int32\<close>, which wraps it into the
  range from \<open>INT_MIN\<close> to \<open>INT_MAX\<close> as the compiled code does: one past \<open>INT_MAX\<close> is
  \<open>INT_MIN\<close>.
\<close>

definition INT_MAX :: int where
  "INT_MAX = 2147483647"

definition INT_MIN :: int where
  "INT_MIN = - 2147483648"

definition int32 :: "int \<Rightarrow> int" where
  "int32 x = (x + 2147483648) mod 4294967296 - 2147483648"

section \<open>State, collaborators and observable effects\<close>

text \<open>
  The two member arrays. \<open>mInterfaceTable ! i\<close> is the name held in the \<open>i\<close>-th buffer
  (empty when its first byte is 0), \<open>mInterfaceRuleCount ! i\<close> its rule count. An array is
  a list, \<open>a[i]\<close> is \<open>a ! nat i\<close>, and an assignment to \<open>a[i]\<close> is a list update; the
  public operations index the arrays only with a result of \<open>findTableNumber\<close> or an
  index that passed \<open>verifyTableIndex\<close>, which are in range (\<open>findTableNumber_cases\<close>,
  \<open>verifyTableIndex_ok\<close>).
\<close>

record controller =
  mInterfaceTable :: "string list"
  mInterfaceRuleCount :: "int list"

text \<open>
  The collaborators: the process primitive behind \<open>runCmd\<close>, \<open>execIptables\<close> and the
  UID-mark map. Each is a function giving the status it returns for the arguments it is
  called with; every theorem below holds for all of them.
\<close>

record env =
  runCmd :: "string list \<Rightarrow> int"
  execIptables :: "IptablesTarget \<Rightarrow> string list \<Rightarrow> int"
  uidMarkMap_add :: "int \<Rightarrow> int \<Rightarrow> int \<Rightarrow> bool"
  uidMarkMap_remove :: "int \<Rightarrow> int \<Rightarrow> int \<Rightarrow> bool"

text \<open>
  What an operation does besides changing the pool, in order: the external commands it
  runs, its calls to the UID-mark map, the value it stores in \<open>errno\<close> and the reply it
  sends to the client. (Log lines are left out.)
\<close>

datatype event =
    Exec "string list"
  | ExecIptables IptablesTarget "string list"
  | UidMarkMapAdd int int int
  | UidMarkMapRemove int int int
  | SetErrno errno
  | SendMsg ResponseCode string bool

record outcome =
  ret :: int
  pool :: controller
  trace :: "event list"

section \<open>The controller\<close>

text \<open>The constructor clears every name and every count.\<close>

definition SecondaryTableController :: "constants \<Rightarrow> controller" where
  "SecondaryTableController c =
     \<lparr>mInterfaceTable = replicate (INTERFACES_TRACKED c) [],
      mInterfaceRuleCount = replicate (INTERFACES_TRACKED c) 0\<rparr>"

text \<open>The scan of \<open>findTableNumber\<close>, from index \<open>i\<close> on.\<close>

function findTableNumber_from :: "constants \<Rightarrow> controller \<Rightarrow> string \<Rightarrow> nat \<Rightarrow> int" where
  "findTableNumber_from c s iface i =
     (if i < INTERFACES_TRACKED c then
        (if strncmp iface (mInterfaceTable s ! i) (IFNAMSIZ c + 1) = 0 then int i
         else findTableNumber_from c s iface (Suc i))
      else -1)"
  by pat_completeness auto
termination
  by (relation "measure (\<lambda>(c, s, iface, i). INTERFACES_TRACKED c - i)") auto

declare findTableNumber_from.simps [simp del]

definition findTableNumber :: "constants \<Rightarrow> controller \<Rightarrow> string \<Rightarrow> int" where
  "findTableNumber c s iface = findTableNumber_from c s iface 0"

definition modifyRuleCount :: "controller \<Rightarrow> int \<Rightarrow> string \<Rightarrow> controller" where
  "modifyRuleCount s tableIndex action =
     (if strcmp action ADD = 0 then
        s\<lparr>mInterfaceRuleCount :=
            (mInterfaceRuleCount s)
              [nat tableIndex := int32 (mInterfaceRuleCount s ! nat tableIndex + 1)]\<rparr>
      else
        (let n = int32 (mInterfaceRuleCount s ! nat tableIndex - 1) in
         if n < 1 then
           s\<lparr>mInterfaceRuleCount := (mInterfaceRuleCount s)[nat tableIndex := 0],
             mInterfaceTable := (mInterfaceTable s)[nat tableIndex := []]\<rparr>
         else
           s\<lparr>mInterfaceRuleCount := (mInterfaceRuleCount s)[nat tableIndex := n]\<rparr>))"

text \<open>
  \<open>modifyRoute\<close> runs the route command and, when it succeeds, first updates the count in
  place and then calls \<open>modifyRuleCount\<close> as well.
\<close>

definition modifyRoute ::
  "constants \<Rightarrow> env \<Rightarrow> controller \<Rightarrow> string \<Rightarrow> string \<Rightarrow> string \<Rightarrow> int \<Rightarrow> string \<Rightarrow> int \<Rightarrow> outcome" where
  "modifyRoute c e s action iface dest prefix gateway tableIndex =
     (let dest_str = snprintf 44 (dest @ ''/'' @ fmt_d prefix);
          tableIndex_str = snprintf 11 (fmt_d (tableIndex + BASE_TABLE_NUMBER c));
          cmd = (if strcmp ''::'' gateway = 0
                 then [IP_PATH c, ''route'', action, dest_str, ''dev'', iface,
                       ''table'', tableIndex_str]
                 else [IP_PATH c, ''route'', action, dest_str, ''via'', gateway, ''dev'', iface,
                       ''table'', tableIndex_str])
      in
      if runCmd e cmd \<noteq> 0 then
        \<lparr>ret = -1, pool = s,
         trace = [Exec cmd, SetErrno ENODEV,
                  SendMsg OperationFailed ''ip route modification failed'' True]\<rparr>
      else
        (let s1 =
           (if strcmp action ADD = 0 then
              s\<lparr>mInterfaceRuleCount :=
                  (mInterfaceRuleCount s)
                    [nat tableIndex := int32 (mInterfaceRuleCount s ! nat tableIndex + 1)]\<rparr>
            else
              (let n = int32 (mInterfaceRuleCount s ! nat tableIndex - 1) in
               if n < 1 then
                 s\<lparr>mInterfaceRuleCount := (mInterfaceRuleCount s)[nat tableIndex := 0],
                   mInterfaceTable := (mInterfaceTable s)[nat tableIndex := []]\<rparr>
               else
                 s\<lparr>mInterfaceRuleCount := (mInterfaceRuleCount s)[nat tableIndex := n]\<rparr>))
         in
         \<lparr>ret = 0, pool = modifyRuleCount s1 tableIndex action,
          trace = [Exec cmd, SendMsg CommandOkay ''Route modified'' False]\<rparr>))"

definition verifyTableIndex :: "constants \<Rightarrow> controller \<Rightarrow> int \<Rightarrow> int" where
  "verifyTableIndex c s tableIndex =
     (if tableIndex < 0 \<or> tableIndex \<ge> int (INTERFACES_TRACKED c)
         \<or> mInterfaceTable s ! nat tableIndex = []
      then -1 else 0)"

definition getVersion :: "string \<Rightarrow> string" where
  "getVersion addr = (if CHR '':'' \<in> set addr then ''-6'' else ''-4'')"

definition addRoute ::
  "constants \<Rightarrow> env \<Rightarrow> controller \<Rightarrow> string \<Rightarrow> string \<Rightarrow> int \<Rightarrow> string \<Rightarrow> outcome" where
  "addRoute c e s iface dest prefix gateway =
     (let tableIndex = findTableNumber c s iface in
      if tableIndex = -1 then
        (let tableIndex = findTableNumber c s [] in
         if tableIndex = -1 then
           \<lparr>ret = -1, pool = s,
            trace = [SetErrno ENODEV, SendMsg OperationFailed ''Max number NATed'' True]\<rparr>
         else
           modifyRoute c e
             (s\<lparr>mInterfaceTable :=
                  (mInterfaceTable s)[nat tableIndex := strncpy iface (IFNAMSIZ c)]\<rparr>)
             ADD iface dest prefix gateway tableIndex)
      else modifyRoute c e s ADD iface dest prefix gateway tableIndex)"

definition removeRoute ::
  "constants \<Rightarrow> env \<Rightarrow> controller \<Rightarrow> string \<Rightarrow> string \<Rightarrow> int \<Rightarrow> string \<Rightarrow> outcome" where
  "removeRoute c e s iface dest prefix gateway =
     (let tableIndex = findTableNumber c s iface in
      if tableIndex = -1 then
        \<lparr>ret = -1, pool = s,
         trace = [SetErrno ENODEV, SendMsg OperationFailed ''Interface not found'' True]\<rparr>
      else modifyRoute c e s DEL iface dest prefix gateway tableIndex)"

definition modifyFromRule ::
  "constants \<Rightarrow> env \<Rightarrow> controller \<Rightarrow> int \<Rightarrow> string \<Rightarrow> string \<Rightarrow> outcome" where
  "modifyFromRule c e s tableIndex action addr =
     (if verifyTableIndex c s tableIndex \<noteq> 0 then \<lparr>ret = -1, pool = s, trace = []\<rparr>
      else
        (let tableIndex_str = snprintf 11 (fmt_d (tableIndex + BASE_TABLE_NUMBER c));
             cmd = [IP_PATH c, getVersion addr, ''rule'', action, ''from'', addr,
                    ''table'', tableIndex_str]
         in
         if runCmd e cmd \<noteq> 0 then \<lparr>ret = -1, pool = s, trace = [Exec cmd]\<rparr>
         else \<lparr>ret = 0, pool = modifyRuleCount s tableIndex action, trace = [Exec cmd]\<rparr>))"

definition modifyLocalRoute ::
  "constants \<Rightarrow> env \<Rightarrow> controller \<Rightarrow> int \<Rightarrow> string \<Rightarrow> string \<Rightarrow> string \<Rightarrow> outcome" where
  "modifyLocalRoute c e s tableIndex action iface addr =
     (if verifyTableIndex c s tableIndex \<noteq> 0 then \<lparr>ret = -1, pool = s, trace = []\<rparr>
      else
        (let s1 = modifyRuleCount s tableIndex action;
             tableIndex_str = snprintf 11 (fmt_d (tableIndex + BASE_TABLE_NUMBER c));
             cmd = [IP_PATH c, ''route'', action, addr, ''dev'', iface,
                    ''table'', tableIndex_str]
         in \<lparr>ret = runCmd e cmd, pool = s1, trace = [Exec cmd]\<rparr>))"

text \<open>The commands of \<open>setFwmarkRule\<close>, once the table index is known.\<close>

definition setFwmarkRule_commands ::
  "constants \<Rightarrow> env \<Rightarrow> controller \<Rightarrow> string \<Rightarrow> bool \<Rightarrow> int \<Rightarrow> outcome" where
  "setFwmarkRule_commands c e s iface add tableIndex =
     (let tableIndex_str = snprintf 11 (fmt_d (tableIndex + BASE_TABLE_NUMBER c));
          cmd = [IP_PATH c, ''rule'', (if add then ''add'' else ''del''), ''fwmark'',
                 tableIndex_str, ''table'', tableIndex_str];
          r = runCmd e cmd
      in
      if r \<noteq> 0 then \<lparr>ret = r, pool = s, trace = [Exec cmd]\<rparr>
      else
        (let args = [''-t'', ''nat'', (if add then ''-A'' else ''-D''),
                     LOCAL_NAT_POSTROUTING, ''-o'', iface, ''-m'', ''mark'', ''--mark'',
                     tableIndex_str, ''-j'', ''MASQUERADE'']
         in \<lparr>ret = execIptables e V4 args, pool = s,
             trace = [Exec cmd, ExecIptables V4 args]\<rparr>))"

definition setFwmarkRule :: "constants \<Rightarrow> env \<Rightarrow> controller \<Rightarrow> string \<Rightarrow> bool \<Rightarrow> outcome" where
  "setFwmarkRule c e s iface add =
     (let tableIndex = findTableNumber c s iface in
      if tableIndex = -1 then
        (let tableIndex = findTableNumber c s [] in
         if tableIndex = -1 then \<lparr>ret = -1, pool = s, trace = [SetErrno ENODEV]\<rparr>
         else
           setFwmarkRule_commands c e
             (s\<lparr>mInterfaceTable :=
                  (mInterfaceTable s)[nat tableIndex := strncpy iface (IFNAMSIZ c)]\<rparr>)
             iface add tableIndex)
      else setFwmarkRule_commands c e s iface add tableIndex)"

definition addFwmarkRule :: "constants \<Rightarrow> env \<Rightarrow> controller \<Rightarrow> string \<Rightarrow> outcome" where
  "addFwmarkRule c e s iface = setFwmarkRule c e s iface True"

definition removeFwmarkRule :: "constants \<Rightarrow> env \<Rightarrow> controller \<Rightarrow> string \<Rightarrow> outcome" where
  "removeFwmarkRule c e s iface = setFwmarkRule c e s iface False"

definition setUidRule ::
  "constants \<Rightarrow> env \<Rightarrow> controller \<Rightarrow> string \<Rightarrow> int \<Rightarrow> int \<Rightarrow> bool \<Rightarrow> outcome" where
  "setUidRule c e s iface uid_start uid_end add =
     (let tableIndex = findTableNumber c s iface in
      if tableIndex = -1 then \<lparr>ret = -1, pool = s, trace = [SetErrno EINVAL]\<rparr>
      else
        (let mark = tableIndex + BASE_TABLE_NUMBER c;
             accepted = (if add then uidMarkMap_add e uid_start uid_end mark
                         else uidMarkMap_remove e uid_start uid_end mark);
             call = (if add then UidMarkMapAdd uid_start uid_end mark
                     else UidMarkMapRemove uid_start uid_end mark)
         in
         if \<not> accepted then \<lparr>ret = -1, pool = s, trace = [call, SetErrno EINVAL]\<rparr>
         else
           (let mark_str = snprintf 11 (fmt_d mark);
                uid_str = snprintf 24 (fmt_d uid_start @ ''-'' @ fmt_d uid_end);
                args = [''-t'', ''mangle'', (if add then ''-A'' else ''-D''),
                        LOCAL_MANGLE_OUTPUT, ''-m'', ''owner'', ''--uid-owner'', uid_str,
                        ''-j'', ''MARK'', ''--set-mark'', mark_str]
            in \<lparr>ret = execIptables e V4V6 args, pool = s,
                trace = [call, ExecIptables V4V6 args]\<rparr>)))"

definition addUidRule ::
  "constants \<Rightarrow> env \<Rightarrow> controller \<Rightarrow> string \<Rightarrow> int \<Rightarrow> int \<Rightarrow> outcome" where
  "addUidRule c e s iface uid_start uid_end = setUidRule c e s iface uid_start uid_end True"

definition removeUidRule ::
  "constants \<Rightarrow> env \<Rightarrow> controller \<Rightarrow> string \<Rightarrow> int \<Rightarrow> int \<Rightarrow> outcome" where
  "removeUidRule c e s iface uid_start uid_end = setUidRule c e s iface uid_start uid_end False"

section \<open>Predicates on the pool\<close>

text \<open>
  The shape the constructor establishes and every operation keeps: both arrays have
  \<open>INTERFACES_TRACKED\<close> entries, and a name buffer of \<open>IFNAMSIZ + 1\<close> bytes holds a name
  of at most \<open>IFNAMSIZ\<close> characters.
\<close>

definition well_formed :: "constants \<Rightarrow> controller \<Rightarrow> bool" where
  "well_formed c s \<longleftrightarrow>
     length (mInterfaceTable s) = INTERFACES_TRACKED c \<and>
     length (mInterfaceRuleCount s) = INTERFACES_TRACKED c \<and>
     (\<forall>i \<in> {..<INTERFACES_TRACKED c}. length (mInterfaceTable s ! i) \<le> IFNAMSIZ c)"

text \<open>An interface is tracked when some slot holds its name.\<close>

definition tracked :: "constants \<Rightarrow> controller \<Rightarrow> string \<Rightarrow> bool" where
  "tracked c s iface \<longleftrightarrow> (\<exists>i \<in> {..<INTERFACES_TRACKED c}. mInterfaceTable s ! i = iface)"

text \<open>The pool is full when every slot holds a name.\<close>

definition pool_full :: "constants \<Rightarrow> controller \<Rightarrow> bool" where
  "pool_full c s \<longleftrightarrow> (\<forall>i \<in> {..<INTERFACES_TRACKED c}. mInterfaceTable s ! i \<noteq> [])"

text \<open>Slot \<open>k\<close> is the lowest free slot.\<close>

definition lowest_free :: "constants \<Rightarrow> controller \<Rightarrow> nat \<Rightarrow> bool" where
  "lowest_free c s k \<longleftrightarrow>
     k < INTERFACES_TRACKED c \<and> mInterfaceTable s ! k = [] \<and>
     (\<forall>j \<in> {..<k}. mInterfaceTable s ! j \<noteq> [])"

section \<open>Concrete configurations\<close>

text \<open>The configuration of the specification's scenario: two slots, tables from 100.\<close>

definition scenario_constants :: constants where
  "scenario_constants =
     \<lparr>INTERFACES_TRACKED = 2, IFNAMSIZ = 16, BASE_TABLE_NUMBER = 100,
      IP_PATH = ''/system/bin/ip''\<rparr>"

definition demo_constants :: constants where
  "demo_constants =
     \<lparr>INTERFACES_TRACKED = 4, IFNAMSIZ = 16, BASE_TABLE_NUMBER = 100,
      IP_PATH = ''/system/bin/ip''\<rparr>"

text \<open>Collaborators that always succeed, and collaborators that always fail.\<close>

definition all_succeed :: env where
  "all_succeed =
     \<lparr>runCmd = (\<lambda>argv. 0), execIptables = (\<lambda>target argv. 0),
      uidMarkMap_add = (\<lambda>uid_start uid_end mark. True),
      uidMarkMap_remove = (\<lambda>uid_start uid_end mark. True)\<rparr>"

definition all_fail :: env where
  "all_fail =
     \<lparr>runCmd = (\<lambda>argv. 1), execIptables = (\<lambda>target argv. 1),
      uidMarkMap_add = (\<lambda>uid_start uid_end mark. False),
      uidMarkMap_remove = (\<lambda>uid_start uid_end mark. False)\<rparr>"

text \<open>A pool of four slots tracking two interfaces, and a full pool of two slots.\<close>

definition demo_pool :: controller where
  "demo_pool =
     \<lparr>mInterfaceTable = [''wlan0'', [], ''eth0'', []], mInterfaceRuleCount = [2, 0, 1, 0]\<rparr>"

definition full_pool :: controller where
  "full_pool = \<lparr>mInterfaceTable = [''wlan0'', ''eth0''], mInterfaceRuleCount = [2, 1]\<rparr>"

section \<open>Command lines\<close>

text \<open>The argument vectors the operations build, named so that theorems can quote them.\<close>

definition table_str :: "constants \<Rightarrow> int \<Rightarrow> string" where
  "table_str c tableIndex = snprintf 11 (fmt_d (tableIndex + BASE_TABLE_NUMBER c))"

definition route_cmd ::
  "constants \<Rightarrow> string \<Rightarrow> string \<Rightarrow> string \<Rightarrow> int \<Rightarrow> string \<Rightarrow> int \<Rightarrow> string list" where
  "route_cmd c action iface dest prefix gateway tableIndex =
     (if gateway = ''::''
      then [IP_PATH c, ''route'', action, snprintf 44 (dest @ ''/'' @ fmt_d prefix), ''dev'',
            iface, ''table'', table_str c tableIndex]
      else [IP_PATH c, ''route'', action, snprintf 44 (dest @ ''/'' @ fmt_d prefix), ''via'',
            gateway, ''dev'', iface, ''table'', table_str c tableIndex])"

definition from_rule_cmd :: "constants \<Rightarrow> string \<Rightarrow> string \<Rightarrow> int \<Rightarrow> string list" where
  "from_rule_cmd c action addr tableIndex =
     [IP_PATH c, getVersion addr, ''rule'', action, ''from'', addr,
      ''table'', table_str c tableIndex]"

definition local_route_cmd ::
  "constants \<Rightarrow> string \<Rightarrow> string \<Rightarrow> string \<Rightarrow> int \<Rightarrow> string list" where
  "local_route_cmd c action iface addr tableIndex =
     [IP_PATH c, ''route'', action, addr, ''dev'', iface, ''table'', table_str c tableIndex]"

definition fwmark_cmd :: "constants \<Rightarrow> bool \<Rightarrow> int \<Rightarrow> string list" where
  "fwmark_cmd c add tableIndex =
     [IP_PATH c, ''rule'', (if add then ''add'' else ''del''), ''fwmark'',
      table_str c tableIndex, ''table'', table_str c tableIndex]"

definition masquerade_args :: "constants \<Rightarrow> bool \<Rightarrow> string \<Rightarrow> int \<Rightarrow> string list" where
  "masquerade_args c add iface tableIndex =
     [''-t'', ''nat'', (if add then ''-A'' else ''-D''), LOCAL_NAT_POSTROUTING, ''-o'', iface,
      ''-m'', ''mark'', ''--mark'', table_str c tableIndex, ''-j'', ''MASQUERADE'']"

definition uid_mark_args :: "bool \<Rightarrow> int \<Rightarrow> int \<Rightarrow> int \<Rightarrow> string list" where
  "uid_mark_args add uid_start uid_end mark =
     [''-t'', ''mangle'', (if add then ''-A'' else ''-D''), LOCAL_MANGLE_OUTPUT, ''-m'', ''owner'',
      ''--uid-owner'', snprintf 24 (fmt_d uid_start @ ''-'' @ fmt_d uid_end),
      ''-j'', ''MARK'', ''--set-mark'', snprintf 11 (fmt_d mark)]"

section \<open>Runs of operations\<close>

text \<open>A run of rule-count updates on one slot.\<close>

definition modifyRuleCount_run :: "controller \<Rightarrow> int \<Rightarrow> string list \<Rightarrow> controller" where
  "modifyRuleCount_run s tableIndex actions =
     foldl (\<lambda>s' action. modifyRuleCount s' tableIndex action) s actions"

text \<open>The public operations that can change the pool or run a command, as requests.\<close>

datatype operation =
    AddRoute string string int string
  | RemoveRoute string string int string
  | ModifyFromRule int string string
  | ModifyLocalRoute int string string string
  | SetFwmarkRule string bool
  | SetUidRule string int int bool

fun perform :: "constants \<Rightarrow> env \<Rightarrow> controller \<Rightarrow> operation \<Rightarrow> outcome" where
  "perform c e s (AddRoute iface dest prefix gateway) = addRoute c e s iface dest prefix gateway"
| "perform c e s (RemoveRoute iface dest prefix gateway) =
     removeRoute c e s iface dest prefix gateway"
| "perform c e s (ModifyFromRule tableIndex action addr) =
     modifyFromRule c e s tableIndex action addr"
| "perform c e s (ModifyLocalRoute tableIndex action iface addr) =
     modifyLocalRoute c e s tableIndex action iface addr"
| "perform c e s (SetFwmarkRule iface add) = setFwmarkRule c e s iface add"
| "perform c e s (SetUidRule iface uid_start uid_end add) =
     setUidRule c e s iface uid_start uid_end add"

text \<open>
  Requests paired with the collaborators each one meets, performed in order; the pool
  is threaded through.
\<close>

fun perform_all :: "constants \<Rightarrow> controller \<Rightarrow> (env \<times> operation) list \<Rightarrow> controller" where
  "perform_all c s [] = s"
| "perform_all c s ((e, request) # rest) = perform_all c (pool (perform c e s request)) rest"

text \<open>The interface name a request hands to an operation that may allocate a slot.\<close>

fun allocating_name :: "operation \<Rightarrow> string option" where
  "allocating_name (AddRoute iface dest prefix gateway) = Some iface"
| "allocating_name (SetFwmarkRule iface add) = Some iface"
| "allocating_name request = None"


text \<open>A request whose allocating name fits the name buffer without truncation.\<close>

definition fits_buffer :: "constants \<Rightarrow> operation \<Rightarrow> bool" where
  "fits_buffer c request \<longleftrightarrow>
     (case allocating_name request of None \<Rightarrow> True | Some iface \<Rightarrow> length iface \<le> IFNAMSIZ c)"

section \<open>Invariants\<close>


text \<open>No count is negative; every count lies between 0 and a bound \<open>b\<close>.\<close>

definition counts_nonnegative :: "constants \<Rightarrow> controller \<Rightarrow> bool" where
  "counts_nonnegative c s \<longleftrightarrow> (\<forall>i \<in> {..<INTERFACES_TRACKED c}. 0 \<le> mInterfaceRuleCount s ! i)"

definition counts_within :: "constants \<Rightarrow> controller \<Rightarrow> int \<Rightarrow> bool" where
  "counts_within c s b \<longleftrightarrow>
     (\<forall>i \<in> {..<INTERFACES_TRACKED c}.
        0 \<le> mInterfaceRuleCount s ! i \<and> mInterfaceRuleCount s ! i \<le> b)"


text \<open>The scenario's pool with the count of \<open>wlan0\<close> at the largest value an \<open>int\<close> holds.\<close>

definition max_pool :: controller where
  "max_pool = \<lparr>mInterfaceTable = [''wlan0'', []], mInterfaceRuleCount = [2147483647, 0]\<rparr>"

text \<open>An interface name of seventeen characters, one more than the buffer keeps.\<close>

definition long_name :: string where
  "long_name = ''abcdefghijklmnopq''"

text \<open>
  The pool of the scenario after its first step, the route added for \<open>wlan0\<close>, and the
  constructor's pool after a fwmark rule was added for \<open>wlan0\<close>.
\<close>

definition wlan0_routed :: controller where
  "wlan0_routed =
     pool (addRoute scenario_constants all_succeed (SecondaryTableController scenario_constants)
             ''wlan0'' ''10.0.0.0'' 24 ''::'')"

definition wlan0_marked :: controller where
  "wlan0_marked =
     pool (addFwmarkRule scenario_constants all_succeed
             (SecondaryTableController scenario_constants) ''wlan0'')"

text \<open>The scenario's pool after a route was added for the interface \<open>long_name\<close>.\<close>

definition long_name_routed :: controller where
  "long_name_routed =
     \<lparr>mInterfaceTable = [''abcdefghijklmnop'', []], mInterfaceRuleCount = [2, 0]\<rparr>"

text \<open>The scenario's pool with a sixteen-character name in its second slot and the first free.\<close>

definition second_slot_pool :: controller where
  "second_slot_pool =
     \<lparr>mInterfaceTable = [[], ''abcdefghijklmnop''], mInterfaceRuleCount = [0, 2]\<rparr>"

section \<open>Wrap-around\<close>

lemma int32_id: "INT_MIN \<le> x \<Longrightarrow> x \<le> INT_MAX \<Longrightarrow> int32 x = x"
  by (simp add: int32_def INT_MIN_def INT_MAX_def)

lemma int32_range: "INT_MIN \<le> int32 x \<and> int32 x \<le> INT_MAX"
  by (simp add: int32_def INT_MIN_def INT_MAX_def)

lemma int32_past_max: "int32 (INT_MAX + 1) = INT_MIN"
  by (simp add: int32_def INT_MIN_def INT_MAX_def)

lemma int32_below_min: "int32 (INT_MIN - 1) = INT_MAX"
  by (simp add: int32_def INT_MIN_def INT_MAX_def)

section \<open>String comparison\<close>

lemma strcmp_eq_0: "strcmp a b = 0 \<longleftrightarrow> a = b"
  by (induction a b rule: strcmp.induct) auto

lemma strncmp_eq_0:
  "strncmp a b n = 0 \<longleftrightarrow>
     a = b \<or> (n \<le> length a \<and> n \<le> length b \<and> take n a = take n b)"
  by (induction a b n rule: strncmp.induct) auto

lemma strncmp_bounded: "length b \<le> n \<Longrightarrow> strncmp a b (Suc n) = 0 \<longleftrightarrow> a = b"
  by (auto simp: strncmp_eq_0)

lemma strncmp_empty: "strncmp [] b (Suc n) = 0 \<longleftrightarrow> b = []"
  by (auto simp: strncmp_eq_0)

section \<open>The scan of the table\<close>

lemma findTableNumber_from_none:
  "findTableNumber_from c s iface i = -1 \<longleftrightarrow>
   (\<forall>j. i \<le> j \<and> j < INTERFACES_TRACKED c \<longrightarrow>
        strncmp iface (mInterfaceTable s ! j) (IFNAMSIZ c + 1) \<noteq> 0)"
proof (induction c s iface i rule: findTableNumber_from.induct)
  case (1 c s iface i)
  show ?case
  proof (cases "i < INTERFACES_TRACKED c")
    case False
    then show ?thesis by (subst findTableNumber_from.simps) auto
  next
    case True
    show ?thesis
    proof (cases "strncmp iface (mInterfaceTable s ! i) (IFNAMSIZ c + 1) = 0")
      case hit: True
      with True show ?thesis by (subst findTableNumber_from.simps) auto
    next
      case miss: False
      have "findTableNumber_from c s iface i = findTableNumber_from c s iface (Suc i)"
        using True miss by (subst findTableNumber_from.simps) simp
      moreover have
        "(\<forall>j. i \<le> j \<and> j < INTERFACES_TRACKED c \<longrightarrow>
              strncmp iface (mInterfaceTable s ! j) (IFNAMSIZ c + 1) \<noteq> 0) \<longleftrightarrow>
         (\<forall>j. Suc i \<le> j \<and> j < INTERFACES_TRACKED c \<longrightarrow>
              strncmp iface (mInterfaceTable s ! j) (IFNAMSIZ c + 1) \<noteq> 0)"
        using miss by (metis Suc_leI le_neq_implies_less Suc_leD)
      ultimately show ?thesis using "1.IH"[OF True miss] by simp
    qed
  qed
qed

lemma findTableNumber_from_some:
  "findTableNumber_from c s iface i = int k \<longleftrightarrow>
   (i \<le> k \<and> k < INTERFACES_TRACKED c \<and>
    strncmp iface (mInterfaceTable s ! k) (IFNAMSIZ c + 1) = 0 \<and>
    (\<forall>j. i \<le> j \<and> j < k \<longrightarrow> strncmp iface (mInterfaceTable s ! j) (IFNAMSIZ c + 1) \<noteq> 0))"
proof (induction c s iface i rule: findTableNumber_from.induct)
  case (1 c s iface i)
  show ?case
  proof (cases "i < INTERFACES_TRACKED c")
    case False
    then show ?thesis by (subst findTableNumber_from.simps) auto
  next
    case True
    show ?thesis
    proof (cases "strncmp iface (mInterfaceTable s ! i) (IFNAMSIZ c + 1) = 0")
      case hit: True
      have "findTableNumber_from c s iface i = int i"
        using True hit by (subst findTableNumber_from.simps) simp
      then show ?thesis using True hit
        by (metis le_refl nat_less_le of_nat_eq_iff leD)
    next
      case miss: False
      have "findTableNumber_from c s iface i = findTableNumber_from c s iface (Suc i)"
        using True miss by (subst findTableNumber_from.simps) simp
      then show ?thesis using "1.IH"[OF True miss] miss
        by (metis Suc_leI le_neq_implies_less Suc_leD)
    qed
  qed
qed

lemma findTableNumber_from_cases:
  "findTableNumber_from c s iface i = -1 \<or>
   (\<exists>k. findTableNumber_from c s iface i = int k \<and> i \<le> k \<and> k < INTERFACES_TRACKED c)"
proof (induction c s iface i rule: findTableNumber_from.induct)
  case (1 c s iface i)
  then show ?case
    by (subst (1 2) findTableNumber_from.simps) (auto intro: Suc_leD)
qed

lemma findTableNumber_cases:
  obtains (none) "findTableNumber c s iface = -1"
  | (some) k where "findTableNumber c s iface = int k" "k < INTERFACES_TRACKED c"
  using findTableNumber_from_cases[of c s iface 0] by (auto simp: findTableNumber_def)

lemma findTableNumber_none:
  assumes "well_formed c s"
  shows "findTableNumber c s iface = -1 \<longleftrightarrow> \<not> tracked c s iface"
  using assms
  by (auto simp: findTableNumber_def findTableNumber_from_none well_formed_def tracked_def
      strncmp_bounded)

lemma findTableNumber_some:
  assumes "well_formed c s"
  shows "findTableNumber c s iface = int k \<longleftrightarrow>
         k < INTERFACES_TRACKED c \<and> mInterfaceTable s ! k = iface \<and>
         (\<forall>j<k. mInterfaceTable s ! j \<noteq> iface)"
proof -
  have "strncmp iface (mInterfaceTable s ! j) (IFNAMSIZ c + 1) = 0 \<longleftrightarrow>
        mInterfaceTable s ! j = iface"
    if "j < INTERFACES_TRACKED c" for j
    using assms that by (auto simp: well_formed_def strncmp_bounded)
  then show ?thesis
    unfolding findTableNumber_def findTableNumber_from_some
    by (metis le0 less_trans)
qed

lemma findTableNumber_empty_none:
  "findTableNumber c s [] = -1 \<longleftrightarrow> pool_full c s"
  by (auto simp: findTableNumber_def findTableNumber_from_none pool_full_def strncmp_empty)

lemma findTableNumber_empty_some:
  "findTableNumber c s [] = int k \<longleftrightarrow> lowest_free c s k"
  by (auto simp: findTableNumber_def findTableNumber_from_some lowest_free_def strncmp_empty)

section \<open>The operations, in terms of their command lines\<close>

lemma modifyRuleCount_add:
  "modifyRuleCount s tableIndex ADD =
     s\<lparr>mInterfaceRuleCount :=
         (mInterfaceRuleCount s)
           [nat tableIndex := int32 (mInterfaceRuleCount s ! nat tableIndex + 1)]\<rparr>"
  by (simp add: modifyRuleCount_def strcmp_eq_0)

lemma modifyRuleCount_remove:
  assumes "action \<noteq> ADD"
  shows "modifyRuleCount s tableIndex action =
     (if int32 (mInterfaceRuleCount s ! nat tableIndex - 1) < 1 then
        s\<lparr>mInterfaceRuleCount := (mInterfaceRuleCount s)[nat tableIndex := 0],
          mInterfaceTable := (mInterfaceTable s)[nat tableIndex := []]\<rparr>
      else
        s\<lparr>mInterfaceRuleCount :=
            (mInterfaceRuleCount s)
              [nat tableIndex := int32 (mInterfaceRuleCount s ! nat tableIndex - 1)]\<rparr>)"
  using assms by (simp add: modifyRuleCount_def strcmp_eq_0 Let_def)

lemma modifyRoute_eq:
  "modifyRoute c e s action iface dest prefix gateway tableIndex =
     (if runCmd e (route_cmd c action iface dest prefix gateway tableIndex) \<noteq> 0 then
        \<lparr>ret = -1, pool = s,
         trace = [Exec (route_cmd c action iface dest prefix gateway tableIndex),
                  SetErrno ENODEV,
                  SendMsg OperationFailed ''ip route modification failed'' True]\<rparr>
      else
        \<lparr>ret = 0, pool = modifyRuleCount (modifyRuleCount s tableIndex action) tableIndex action,
         trace = [Exec (route_cmd c action iface dest prefix gateway tableIndex),
                  SendMsg CommandOkay ''Route modified'' False]\<rparr>)"
proof -
  have gw: "strcmp ''::'' gateway = 0 \<longleftrightarrow> gateway = ''::''"
    by (auto simp: strcmp_eq_0)
  show ?thesis
    unfolding modifyRoute_def route_cmd_def table_str_def Let_def gw
    by (simp add: modifyRuleCount_def Let_def)
qed

lemma modifyFromRule_eq:
  "modifyFromRule c e s tableIndex action addr =
     (if verifyTableIndex c s tableIndex \<noteq> 0 then \<lparr>ret = -1, pool = s, trace = []\<rparr>
      else if runCmd e (from_rule_cmd c action addr tableIndex) \<noteq> 0 then
        \<lparr>ret = -1, pool = s, trace = [Exec (from_rule_cmd c action addr tableIndex)]\<rparr>
      else
        \<lparr>ret = 0, pool = modifyRuleCount s tableIndex action,
         trace = [Exec (from_rule_cmd c action addr tableIndex)]\<rparr>)"
  by (simp add: modifyFromRule_def from_rule_cmd_def table_str_def Let_def)

lemma modifyLocalRoute_eq:
  "modifyLocalRoute c e s tableIndex action iface addr =
     (if verifyTableIndex c s tableIndex \<noteq> 0 then \<lparr>ret = -1, pool = s, trace = []\<rparr>
      else
        \<lparr>ret = runCmd e (local_route_cmd c action iface addr tableIndex),
         pool = modifyRuleCount s tableIndex action,
         trace = [Exec (local_route_cmd c action iface addr tableIndex)]\<rparr>)"
  by (simp add: modifyLocalRoute_def local_route_cmd_def table_str_def Let_def)

lemma verifyTableIndex_ok:
  "verifyTableIndex c s tableIndex = 0 \<longleftrightarrow>
     0 \<le> tableIndex \<and> tableIndex < int (INTERFACES_TRACKED c) \<and>
     mInterfaceTable s ! nat tableIndex \<noteq> []"
  by (auto simp: verifyTableIndex_def)

lemma setFwmarkRule_tracked:
  assumes "findTableNumber c s iface = int k"
  shows "setFwmarkRule c e s iface add =
     (if runCmd e (fwmark_cmd c add (int k)) \<noteq> 0 then
        \<lparr>ret = runCmd e (fwmark_cmd c add (int k)), pool = s,
         trace = [Exec (fwmark_cmd c add (int k))]\<rparr>
      else
        \<lparr>ret = execIptables e V4 (masquerade_args c add iface (int k)), pool = s,
         trace = [Exec (fwmark_cmd c add (int k)),
                  ExecIptables V4 (masquerade_args c add iface (int k))]\<rparr>)"
  using assms
  by (simp add: setFwmarkRule_def setFwmarkRule_commands_def fwmark_cmd_def masquerade_args_def
      table_str_def Let_def)

lemma setFwmarkRule_allocates:
  assumes "findTableNumber c s iface = -1" and "findTableNumber c s [] = int k"
  shows "setFwmarkRule c e s iface add =
     (if runCmd e (fwmark_cmd c add (int k)) \<noteq> 0 then
        \<lparr>ret = runCmd e (fwmark_cmd c add (int k)),
         pool = s\<lparr>mInterfaceTable := (mInterfaceTable s)[k := take (IFNAMSIZ c) iface]\<rparr>,
         trace = [Exec (fwmark_cmd c add (int k))]\<rparr>
      else
        \<lparr>ret = execIptables e V4 (masquerade_args c add iface (int k)),
         pool = s\<lparr>mInterfaceTable := (mInterfaceTable s)[k := take (IFNAMSIZ c) iface]\<rparr>,
         trace = [Exec (fwmark_cmd c add (int k)),
                  ExecIptables V4 (masquerade_args c add iface (int k))]\<rparr>)"
  using assms
  by (simp add: setFwmarkRule_def setFwmarkRule_commands_def fwmark_cmd_def masquerade_args_def
      table_str_def Let_def strncpy_def)

lemma setFwmarkRule_exhausted:
  assumes "findTableNumber c s iface = -1" and "findTableNumber c s [] = -1"
  shows "setFwmarkRule c e s iface add = \<lparr>ret = -1, pool = s, trace = [SetErrno ENODEV]\<rparr>"
  using assms by (simp add: setFwmarkRule_def)

lemma addRoute_tracked:
  assumes "findTableNumber c s iface = int k"
  shows "addRoute c e s iface dest prefix gateway =
           modifyRoute c e s ADD iface dest prefix gateway (int k)"
  using assms by (simp add: addRoute_def)

lemma addRoute_allocates:
  assumes "findTableNumber c s iface = -1" and "findTableNumber c s [] = int k"
  shows "addRoute c e s iface dest prefix gateway =
           modifyRoute c e
             (s\<lparr>mInterfaceTable := (mInterfaceTable s)[k := take (IFNAMSIZ c) iface]\<rparr>)
             ADD iface dest prefix gateway (int k)"
  using assms by (simp add: addRoute_def strncpy_def)

lemma addRoute_exhausted:
  assumes "findTableNumber c s iface = -1" and "findTableNumber c s [] = -1"
  shows "addRoute c e s iface dest prefix gateway =
           \<lparr>ret = -1, pool = s,
            trace = [SetErrno ENODEV, SendMsg OperationFailed ''Max number NATed'' True]\<rparr>"
  using assms by (simp add: addRoute_def)

lemma removeRoute_tracked:
  assumes "findTableNumber c s iface = int k"
  shows "removeRoute c e s iface dest prefix gateway =
           modifyRoute c e s DEL iface dest prefix gateway (int k)"
  using assms by (simp add: removeRoute_def)



section \<open>Rule counts\<close>

lemma modifyRuleCount_lengths:
  "length (mInterfaceTable (modifyRuleCount s tableIndex action)) = length (mInterfaceTable s) \<and>
   length (mInterfaceRuleCount (modifyRuleCount s tableIndex action)) =
     length (mInterfaceRuleCount s)"
  by (simp add: modifyRuleCount_def Let_def)

lemma modifyRuleCount_count:
  assumes "nat tableIndex < length (mInterfaceRuleCount s)"
  shows "mInterfaceRuleCount (modifyRuleCount s tableIndex action) ! nat tableIndex =
     (if action = ADD then int32 (mInterfaceRuleCount s ! nat tableIndex + 1)
      else if int32 (mInterfaceRuleCount s ! nat tableIndex - 1) < 1 then 0
      else int32 (mInterfaceRuleCount s ! nat tableIndex - 1))"
  using assms by (cases "action = ADD") (simp_all add: modifyRuleCount_add modifyRuleCount_remove)

lemma modifyRuleCount_count_other:
  assumes "i \<noteq> nat tableIndex"
  shows "mInterfaceRuleCount (modifyRuleCount s tableIndex action) ! i = mInterfaceRuleCount s ! i"
  using assms by (cases "action = ADD") (simp_all add: modifyRuleCount_add modifyRuleCount_remove)

lemma modifyRuleCount_name:
  assumes "nat tableIndex < length (mInterfaceTable s)"
  shows "mInterfaceTable (modifyRuleCount s tableIndex action) ! nat tableIndex =
     (if action \<noteq> ADD \<and> int32 (mInterfaceRuleCount s ! nat tableIndex - 1) < 1 then []
      else mInterfaceTable s ! nat tableIndex)"
  using assms by (cases "action = ADD") (simp_all add: modifyRuleCount_add modifyRuleCount_remove)

lemma modifyRuleCount_name_other:
  assumes "i \<noteq> nat tableIndex"
  shows "mInterfaceTable (modifyRuleCount s tableIndex action) ! i = mInterfaceTable s ! i"
  using assms by (cases "action = ADD") (simp_all add: modifyRuleCount_add modifyRuleCount_remove)

lemma modifyRuleCount_well_formed:
  assumes "well_formed c s"
  shows "well_formed c (modifyRuleCount s tableIndex action)"
proof -
  have "length (mInterfaceTable (modifyRuleCount s tableIndex action) ! i) \<le> IFNAMSIZ c"
    if "i < INTERFACES_TRACKED c" for i
  proof (cases "i = nat tableIndex")
    case True
    then show ?thesis
      using assms that by (simp add: modifyRuleCount_name well_formed_def)
  next
    case False
    then show ?thesis
      using assms that by (simp add: modifyRuleCount_name_other well_formed_def)
  qed
  then show ?thesis
    using assms by (simp add: well_formed_def modifyRuleCount_lengths)
qed

text \<open>Counts between 0 and \<open>INT_MAX\<close> move by one and do not wrap.\<close>

lemma count_step:
  assumes "0 \<le> n" and "n \<le> b" and "b < INT_MAX"
  shows "int32 (n + 1) = n + 1" and "int32 (n - 1) = n - 1"
  using assms by (simp_all add: int32_def INT_MAX_def)

lemma counts_within_mono:
  "counts_within c s b \<Longrightarrow> b \<le> b' \<Longrightarrow> counts_within c s b'"
  unfolding counts_within_def by (meson order_trans)

lemma counts_within_nonnegative: "counts_within c s b \<Longrightarrow> counts_nonnegative c s"
  by (simp add: counts_within_def counts_nonnegative_def)

lemma modifyRuleCount_within:
  assumes "well_formed c s" and "counts_within c s b" and "b < INT_MAX"
  shows "counts_within c (modifyRuleCount s tableIndex action) (b + 1)"
proof -
  have "0 \<le> mInterfaceRuleCount (modifyRuleCount s tableIndex action) ! i \<and>
        mInterfaceRuleCount (modifyRuleCount s tableIndex action) ! i \<le> b + 1"
    if "i < INTERFACES_TRACKED c" for i
  proof -
    have old: "0 \<le> mInterfaceRuleCount s ! i" "mInterfaceRuleCount s ! i \<le> b"
      using assms(2) that by (simp_all add: counts_within_def)
    show ?thesis
    proof (cases "i = nat tableIndex")
      case True
      have len: "nat tableIndex < length (mInterfaceRuleCount s)"
        using assms(1) that True by (simp add: well_formed_def)
      show ?thesis
        using old count_step[OF old assms(3)] unfolding True
        by (simp add: modifyRuleCount_count[OF len])
    next
      case False
      then show ?thesis
        using old by (simp add: modifyRuleCount_count_other)
    qed
  qed
  then show ?thesis
    by (simp add: counts_within_def)
qed

lemma modifyRuleCount_run_well_formed:
  "well_formed c s \<Longrightarrow> well_formed c (modifyRuleCount_run s tableIndex actions)"
  unfolding modifyRuleCount_run_def
  by (induction actions arbitrary: s) (simp_all add: modifyRuleCount_well_formed)

lemma modifyRuleCount_run_within:
  "well_formed c s \<Longrightarrow> counts_within c s b \<Longrightarrow> b + int (length actions) \<le> INT_MAX \<Longrightarrow>
   counts_within c (modifyRuleCount_run s tableIndex actions) (b + int (length actions))"
  unfolding modifyRuleCount_run_def
proof (induction actions arbitrary: s b)
  case Nil
  then show ?case by simp
next
  case (Cons a actions)
  have step: "counts_within c (modifyRuleCount s tableIndex a) (b + 1)"
    using Cons.prems by (intro modifyRuleCount_within) simp_all
  have "counts_within c
          (foldl (\<lambda>s' action. modifyRuleCount s' tableIndex action)
             (modifyRuleCount s tableIndex a) actions)
          (b + 1 + int (length actions))"
    using Cons.prems step by (intro Cons.IH modifyRuleCount_well_formed) simp_all
  then show ?case
    by (simp add: ac_simps)
qed

lemma modifyRuleCount_add_table:
  "mInterfaceTable (modifyRuleCount s tableIndex ADD) = mInterfaceTable s"
  by (simp add: modifyRuleCount_add)


section \<open>What an operation can do to the pool\<close>

lemma modifyRoute_pool:
  "pool (modifyRoute c e s action iface dest prefix gateway tableIndex) =
     (if runCmd e (route_cmd c action iface dest prefix gateway tableIndex) \<noteq> 0 then s
      else modifyRuleCount (modifyRuleCount s tableIndex action) tableIndex action)"
  by (simp add: modifyRoute_eq)

lemma allocate_well_formed:
  assumes "well_formed c s"
  shows "well_formed c (s\<lparr>mInterfaceTable := (mInterfaceTable s)[k := take (IFNAMSIZ c) iface]\<rparr>)"
proof -
  have "length ((mInterfaceTable s)[k := take (IFNAMSIZ c) iface] ! i) \<le> IFNAMSIZ c"
    if "i < INTERFACES_TRACKED c" for i
  proof (cases "i = k")
    case True
    then show ?thesis
      using assms that by (simp add: well_formed_def)
  next
    case False
    then show ?thesis
      using assms that by (simp add: well_formed_def)
  qed
  then show ?thesis
    using assms by (simp add: well_formed_def)
qed

lemma modifyRoute_well_formed:
  assumes "well_formed c s"
  shows "well_formed c (pool (modifyRoute c e s action iface dest prefix gateway tableIndex))"
  using assms by (simp add: modifyRoute_pool modifyRuleCount_well_formed)

lemma addRoute_well_formed:
  assumes "well_formed c s"
  shows "well_formed c (pool (addRoute c e s iface dest prefix gateway))"
proof (cases c s iface rule: findTableNumber_cases)
  case none
  show ?thesis
  proof (cases c s "[]::string" rule: findTableNumber_cases)
    case none': none
    show ?thesis
      using assms by (simp add: addRoute_exhausted[OF none none'])
  next
    case (some k)
    show ?thesis
      using assms
      by (simp add: addRoute_allocates[OF none some(1)] modifyRoute_well_formed
          allocate_well_formed)
  qed
next
  case (some k)
  show ?thesis
    using assms by (simp add: addRoute_tracked[OF some(1)] modifyRoute_well_formed)
qed

lemma removeRoute_well_formed:
  assumes "well_formed c s"
  shows "well_formed c (pool (removeRoute c e s iface dest prefix gateway))"
  using assms by (simp add: removeRoute_def modifyRoute_well_formed Let_def)

lemma modifyFromRule_well_formed:
  assumes "well_formed c s"
  shows "well_formed c (pool (modifyFromRule c e s tableIndex action addr))"
  using assms by (simp add: modifyFromRule_eq modifyRuleCount_well_formed)

lemma modifyLocalRoute_well_formed:
  assumes "well_formed c s"
  shows "well_formed c (pool (modifyLocalRoute c e s tableIndex action iface addr))"
  using assms by (simp add: modifyLocalRoute_eq modifyRuleCount_well_formed)

lemma setFwmarkRule_pool:
  "pool (setFwmarkRule c e s iface add) =
     (if findTableNumber c s iface = -1 \<and> findTableNumber c s [] \<noteq> -1
      then s\<lparr>mInterfaceTable :=
               (mInterfaceTable s)[nat (findTableNumber c s []) := take (IFNAMSIZ c) iface]\<rparr>
      else s)"
  by (simp add: setFwmarkRule_def setFwmarkRule_commands_def Let_def strncpy_def)

lemma setFwmarkRule_well_formed:
  assumes "well_formed c s"
  shows "well_formed c (pool (setFwmarkRule c e s iface add))"
  using assms by (simp add: setFwmarkRule_pool allocate_well_formed)

lemma setUidRule_pool: "pool (setUidRule c e s iface uid_start uid_end add) = s"
  by (simp add: setUidRule_def Let_def)

lemma perform_well_formed:
  assumes "well_formed c s"
  shows "well_formed c (pool (perform c e s request))"
  using assms
  by (cases request)
    (simp_all add: addRoute_well_formed removeRoute_well_formed modifyFromRule_well_formed
      modifyLocalRoute_well_formed setFwmarkRule_well_formed setUidRule_pool)

lemma perform_all_well_formed:
  "well_formed c s \<Longrightarrow> well_formed c (perform_all c s run)"
  by (induction c s run rule: perform_all.induct) (simp_all add: perform_well_formed)

lemma modifyRoute_add_table:
  "mInterfaceTable (pool (modifyRoute c e s ADD iface dest prefix gateway tableIndex)) =
     mInterfaceTable s"
  by (simp add: modifyRoute_eq modifyRuleCount_add_table)


section \<open>Stability of the table index\<close>

lemma findTableNumber_same_table:
  assumes "mInterfaceTable s' = mInterfaceTable s"
  shows "findTableNumber c s' iface = findTableNumber c s iface"
proof (cases c s iface rule: findTableNumber_cases)
  case none
  then have "findTableNumber c s' iface = -1"
    by (simp add: findTableNumber_def findTableNumber_from_none assms)
  then show ?thesis
    using none by simp
next
  case (some k)
  then have "findTableNumber c s' iface = int k"
    by (simp add: findTableNumber_def findTableNumber_from_some assms)
  then show ?thesis
    using some(1) by simp
qed

lemma list_update_empty_cases: "xs[k := []] ! i = xs ! i \<or> xs[k := []] ! i = []"
  by (cases "i = k"; cases "k < length xs") (simp_all add: list_update_beyond)

lemma modifyRuleCount_table_cases:
  "mInterfaceTable (modifyRuleCount s tableIndex action) ! i = mInterfaceTable s ! i \<or>
   mInterfaceTable (modifyRuleCount s tableIndex action) ! i = []"
  using list_update_empty_cases[of "mInterfaceTable s" "nat tableIndex" i]
  by (cases "action = ADD") (auto simp: modifyRuleCount_add modifyRuleCount_remove)

lemma modifyRoute_table_cases:
  "mInterfaceTable (pool (modifyRoute c e s action iface dest prefix gateway tableIndex)) ! i =
     mInterfaceTable s ! i \<or>
   mInterfaceTable (pool (modifyRoute c e s action iface dest prefix gateway tableIndex)) ! i = []"
  using modifyRuleCount_table_cases[of s tableIndex action i]
    modifyRuleCount_table_cases[of "modifyRuleCount s tableIndex action" tableIndex action i]
  by (auto simp: modifyRoute_pool)

lemma addRoute_table:
  "mInterfaceTable (pool (addRoute c e s iface dest prefix gateway)) =
     (if findTableNumber c s iface = -1 \<and> findTableNumber c s [] \<noteq> -1
      then (mInterfaceTable s)[nat (findTableNumber c s []) := take (IFNAMSIZ c) iface]
      else mInterfaceTable s)"
  by (simp add: addRoute_def Let_def modifyRoute_add_table strncpy_def)

lemma setFwmarkRule_table:
  "mInterfaceTable (pool (setFwmarkRule c e s iface add)) =
     (if findTableNumber c s iface = -1 \<and> findTableNumber c s [] \<noteq> -1
      then (mInterfaceTable s)[nat (findTableNumber c s []) := take (IFNAMSIZ c) iface]
      else mInterfaceTable s)"
  by (simp add: setFwmarkRule_pool)

text \<open>What a slot's name can become when a request is performed.\<close>

lemma allocation_table_cases:
  assumes "well_formed c s" and "i < INTERFACES_TRACKED c"
    and "table' =
     (if findTableNumber c s name = -1 \<and> findTableNumber c s [] \<noteq> -1
      then (mInterfaceTable s)[nat (findTableNumber c s []) := take (IFNAMSIZ c) name]
      else mInterfaceTable s)"
  shows "table' ! i = mInterfaceTable s ! i \<or>
         (\<not> tracked c s name \<and> mInterfaceTable s ! i = [] \<and> table' ! i = take (IFNAMSIZ c) name)"
proof (cases "findTableNumber c s name = -1 \<and> findTableNumber c s [] \<noteq> -1")
  case False
  with assms(3) have "table' = mInterfaceTable s"
    by (simp only: if_not_P if_False)
  then show ?thesis
    by simp
next
  case True
  then have un: "\<not> tracked c s name"
    using assms(1) by (simp add: findTableNumber_none)
  from True obtain k where k: "findTableNumber c s [] = int k" "k < INTERFACES_TRACKED c"
    by (cases c s "[]::string" rule: findTableNumber_cases) auto
  then have free: "mInterfaceTable s ! k = []"
    by (simp add: findTableNumber_empty_some lowest_free_def)
  have len: "k < length (mInterfaceTable s)"
    using assms(1) k(2) by (simp add: well_formed_def)
  show ?thesis
    using True un free len k(1) assms(3) by (cases "i = k") simp_all
qed

lemma perform_table_cases:
  assumes "well_formed c s" and "i < INTERFACES_TRACKED c"
  shows "mInterfaceTable (pool (perform c e s request)) ! i = mInterfaceTable s ! i \<or>
         mInterfaceTable (pool (perform c e s request)) ! i = [] \<or>
         (\<exists>name. allocating_name request = Some name \<and> \<not> tracked c s name \<and>
                 mInterfaceTable s ! i = [] \<and>
                 mInterfaceTable (pool (perform c e s request)) ! i = take (IFNAMSIZ c) name)"
proof (cases request)
  case (AddRoute iface dest prefix gateway)
  have "mInterfaceTable (pool (addRoute c e s iface dest prefix gateway)) ! i =
          mInterfaceTable s ! i \<or>
        (\<not> tracked c s iface \<and> mInterfaceTable s ! i = [] \<and>
         mInterfaceTable (pool (addRoute c e s iface dest prefix gateway)) ! i =
           take (IFNAMSIZ c) iface)"
    by (rule allocation_table_cases[OF assms addRoute_table])
  then show ?thesis
    using AddRoute by auto
next
  case (RemoveRoute iface dest prefix gateway)
  then show ?thesis
    using modifyRoute_table_cases[of c e s DEL iface dest prefix gateway _ i]
    by (auto simp: removeRoute_def Let_def)
next
  case (ModifyFromRule tableIndex action addr)
  then show ?thesis
    using modifyRuleCount_table_cases[of s tableIndex action i]
    by (auto simp: modifyFromRule_eq)
next
  case (ModifyLocalRoute tableIndex action iface addr)
  then show ?thesis
    using modifyRuleCount_table_cases[of s tableIndex action i]
    by (auto simp: modifyLocalRoute_eq)
next
  case (SetFwmarkRule iface add)
  have "mInterfaceTable (pool (setFwmarkRule c e s iface add)) ! i = mInterfaceTable s ! i \<or>
        (\<not> tracked c s iface \<and> mInterfaceTable s ! i = [] \<and>
         mInterfaceTable (pool (setFwmarkRule c e s iface add)) ! i = take (IFNAMSIZ c) iface)"
    by (rule allocation_table_cases[OF assms setFwmarkRule_table])
  then show ?thesis
    using SetFwmarkRule by auto
next
  case (SetUidRule iface uid_start uid_end add)
  then show ?thesis
    by (simp add: setUidRule_pool)
qed

lemma perform_keeps_index:
  assumes "well_formed c s" and "findTableNumber c s iface = int k" and "iface \<noteq> []"
    and "fits_buffer c request"
  shows "mInterfaceTable (pool (perform c e s request)) ! k = [] \<or>
         findTableNumber c (pool (perform c e s request)) iface = int k"
proof -
  let ?s' = "pool (perform c e s request)"
  have wf': "well_formed c ?s'"
    using assms(1) by (rule perform_well_formed)
  have k: "k < INTERFACES_TRACKED c" "mInterfaceTable s ! k = iface"
    "\<forall>j<k. mInterfaceTable s ! j \<noteq> iface"
    using assms(1,2) by (simp_all add: findTableNumber_some)
  have is_tracked: "tracked c s iface"
    using k(1,2) by (auto simp: tracked_def)
  have at_k: "mInterfaceTable ?s' ! k = iface \<or> mInterfaceTable ?s' ! k = []"
    using perform_table_cases[OF assms(1) k(1), of e request] k(2) assms(3) by auto
  have below: "mInterfaceTable ?s' ! j \<noteq> iface" if "j < k" for j
  proof -
    have j: "j < INTERFACES_TRACKED c"
      using that k(1) by simp
    have old: "mInterfaceTable s ! j \<noteq> iface"
      using that k(3) by simp
    consider (same) "mInterfaceTable ?s' ! j = mInterfaceTable s ! j"
      | (cleared) "mInterfaceTable ?s' ! j = []"
      | (written) name where "allocating_name request = Some name" "\<not> tracked c s name"
          "mInterfaceTable ?s' ! j = take (IFNAMSIZ c) name"
      using perform_table_cases[OF assms(1) j, of e request] by blast
    then show ?thesis
    proof cases
      case same
      then show ?thesis using old by simp
    next
      case cleared
      then show ?thesis using assms(3) by simp
    next
      case written
      then have "take (IFNAMSIZ c) name = name"
        using assms(4) by (simp add: fits_buffer_def)
      moreover have "name \<noteq> iface"
        using written(2) is_tracked by auto
      ultimately show ?thesis
        using written(3) by simp
    qed
  qed
  show ?thesis
    using at_k
  proof
    assume "mInterfaceTable ?s' ! k = iface"
    then have "findTableNumber c ?s' iface = int k"
      using k(1) below by (simp add: findTableNumber_some[OF wf'])
    then show ?thesis ..
  next
    assume "mInterfaceTable ?s' ! k = []"
    then show ?thesis ..
  qed
qed

lemma allocation_found_again:
  assumes "well_formed c s" and "length iface \<le> IFNAMSIZ c"
    and "\<not> tracked c s iface" and "lowest_free c s k"
    and "well_formed c s'"
    and "mInterfaceTable s' =
     (if findTableNumber c s iface = -1 \<and> findTableNumber c s [] \<noteq> -1
      then (mInterfaceTable s)[nat (findTableNumber c s []) := take (IFNAMSIZ c) iface]
      else mInterfaceTable s)"
  shows "findTableNumber c s' iface = int k"
proof -
  have none: "findTableNumber c s iface = -1"
    using assms(1,3) by (simp add: findTableNumber_none)
  have slot: "findTableNumber c s [] = int k"
    using assms(4) by (simp add: findTableNumber_empty_some)
  have k: "k < INTERFACES_TRACKED c"
    using assms(4) by (simp add: lowest_free_def)
  have table': "mInterfaceTable s' = (mInterfaceTable s)[k := iface]"
    using assms(2,6) none slot by simp
  have len: "k < length (mInterfaceTable s)"
    using assms(1) k by (simp add: well_formed_def)
  have "mInterfaceTable s' ! j \<noteq> iface" if "j < k" for j
  proof -
    have "mInterfaceTable s ! j \<noteq> iface"
      using assms(3) that k by (auto simp: tracked_def)
    then show ?thesis
      using that by (simp add: table')
  qed
  then show ?thesis
    using k len by (simp add: findTableNumber_some[OF assms(5)] table')
qed

section \<open>Operations on an interface that is not tracked\<close>


lemma untracked_initially:
  "iface \<noteq> [] \<Longrightarrow> \<not> tracked c (SecondaryTableController c) iface"
  by (auto simp: tracked_def SecondaryTableController_def)

text \<open>
  Claim C8. \<open>removeRoute\<close> for an interface that no slot holds fails: it returns -1 with
  \<open>errno = ENODEV\<close> and the reply "Interface not found", the pool it leaves is the pool
  it was given (every name and every count), and its trace holds no command. By
  \<open>untracked_initially\<close> this covers every non-empty name in the constructor's state.
\<close>

theorem removeRoute_untracked:
  assumes "well_formed c s" and "\<not> tracked c s iface"
  shows "removeRoute c e s iface dest prefix gateway =
           \<lparr>ret = -1, pool = s,
            trace = [SetErrno ENODEV, SendMsg OperationFailed ''Interface not found'' True]\<rparr>"
  using assms by (simp add: removeRoute_def findTableNumber_none)

theorem removeRoute_untracked_witness:
  "well_formed demo_constants demo_pool \<and> \<not> tracked demo_constants demo_pool ''rmnet0'' \<and>
   removeRoute demo_constants all_succeed demo_pool ''rmnet0'' ''10.0.0.0'' 24 ''::'' =
     \<lparr>ret = -1, pool = demo_pool,
      trace = [SetErrno ENODEV, SendMsg OperationFailed ''Interface not found'' True]\<rparr>"
proof -
  have wf: "well_formed demo_constants demo_pool"
    by code_simp
  have un: "\<not> tracked demo_constants demo_pool ''rmnet0''"
    by code_simp
  show ?thesis
    using wf un removeRoute_untracked[OF wf un, of all_succeed "''10.0.0.0''" 24 "''::''"]
    by simp
qed

text \<open>
  Claim C9. When every slot holds a name and the interface is held by none of them,
  \<open>addRoute\<close> and \<open>addFwmarkRule\<close> fail for want of a slot (-1, \<open>errno = ENODEV\<close>, and for
  \<open>addRoute\<close> the reply "Max number NATed"), run no command, and leave the pool as it was.
\<close>

theorem allocation_fails_when_full:
  assumes "well_formed c s" and "pool_full c s" and "\<not> tracked c s iface"
  shows "addRoute c e s iface dest prefix gateway =
           \<lparr>ret = -1, pool = s,
            trace = [SetErrno ENODEV, SendMsg OperationFailed ''Max number NATed'' True]\<rparr> \<and>
         addFwmarkRule c e s iface = \<lparr>ret = -1, pool = s, trace = [SetErrno ENODEV]\<rparr>"
proof -
  have "findTableNumber c s iface = -1"
    using assms(1,3) by (simp add: findTableNumber_none)
  moreover have "findTableNumber c s [] = -1"
    using assms(2) by (simp add: findTableNumber_empty_none)
  ultimately show ?thesis
    by (simp add: addRoute_def addFwmarkRule_def setFwmarkRule_def)
qed

theorem allocation_fails_when_full_witness:
  "well_formed scenario_constants full_pool \<and> pool_full scenario_constants full_pool \<and>
   \<not> tracked scenario_constants full_pool ''rmnet0'' \<and>
   addRoute scenario_constants all_succeed full_pool ''rmnet0'' ''10.0.0.0'' 24 ''::'' =
     \<lparr>ret = -1, pool = full_pool,
      trace = [SetErrno ENODEV, SendMsg OperationFailed ''Max number NATed'' True]\<rparr> \<and>
   addFwmarkRule scenario_constants all_succeed full_pool ''rmnet0'' =
     \<lparr>ret = -1, pool = full_pool, trace = [SetErrno ENODEV]\<rparr>"
proof -
  have wf: "well_formed scenario_constants full_pool"
    by code_simp
  have full: "pool_full scenario_constants full_pool"
    by code_simp
  have un: "\<not> tracked scenario_constants full_pool ''rmnet0''"
    by code_simp
  show ?thesis
    using wf full un
      allocation_fails_when_full[OF wf full un, of all_succeed "''10.0.0.0''" 24 "''::''"]
    by simp
qed

section \<open>Runs of rule-count updates\<close>

lemma allocate_within:
  assumes "counts_within c s b"
  shows "counts_within c (s\<lparr>mInterfaceTable := names\<rparr>) b"
  using assms by (simp add: counts_within_def)

lemma modifyRoute_within:
  assumes "well_formed c s" and "counts_within c s b" and "b + 2 \<le> INT_MAX"
  shows "counts_within c
           (pool (modifyRoute c e s action iface dest prefix gateway tableIndex)) (b + 2)"
proof -
  let ?s1 = "modifyRuleCount s tableIndex action"
  have one: "counts_within c ?s1 (b + 1)"
    using assms by (intro modifyRuleCount_within) simp_all
  have "counts_within c (modifyRuleCount ?s1 tableIndex action) (b + 1 + 1)"
    using assms one by (intro modifyRuleCount_within modifyRuleCount_well_formed) simp_all
  then have two: "counts_within c (modifyRuleCount ?s1 tableIndex action) (b + 2)"
    by (simp add: ac_simps)
  have "counts_within c s (b + 2)"
    using assms(2) by (rule counts_within_mono) simp
  then show ?thesis
    using two by (simp add: modifyRoute_pool)
qed

lemma perform_within:
  assumes "well_formed c s" and "counts_within c s b" and "b + 2 \<le> INT_MAX"
  shows "counts_within c (pool (perform c e s request)) (b + 2)"
proof -
  have same: "counts_within c s (b + 2)"
    using assms(2) by (rule counts_within_mono) simp
  have one: "counts_within c (modifyRuleCount s tableIndex action) (b + 2)" for tableIndex action
  proof -
    have "counts_within c (modifyRuleCount s tableIndex action) (b + 1)"
      using assms by (intro modifyRuleCount_within) simp_all
    then show ?thesis
      by (rule counts_within_mono) simp
  qed
  show ?thesis
  proof (cases request)
    case (AddRoute iface dest prefix gateway)
    have "counts_within c (pool (addRoute c e s iface dest prefix gateway)) (b + 2)"
      using assms same
      by (simp add: addRoute_def Let_def modifyRoute_within allocate_within
          allocate_well_formed strncpy_def)
    then show ?thesis
      using AddRoute by simp
  next
    case (RemoveRoute iface dest prefix gateway)
    then show ?thesis
      using assms same by (simp add: removeRoute_def Let_def modifyRoute_within)
  next
    case (ModifyFromRule tableIndex action addr)
    then show ?thesis
      using same one by (simp add: modifyFromRule_eq)
  next
    case (ModifyLocalRoute tableIndex action iface addr)
    then show ?thesis
      using same one by (simp add: modifyLocalRoute_eq)
  next
    case (SetFwmarkRule iface add)
    then show ?thesis
      using same by (simp add: setFwmarkRule_pool allocate_within)
  next
    case (SetUidRule iface uid_start uid_end add)
    then show ?thesis
      using same by (simp add: setUidRule_pool)
  qed
qed

lemma perform_all_within:
  "well_formed c s \<Longrightarrow> counts_within c s b \<Longrightarrow> b + 2 * int (length run) \<le> INT_MAX \<Longrightarrow>
   counts_within c (perform_all c s run) (b + 2 * int (length run))"
proof (induction c s run arbitrary: b rule: perform_all.induct)
  case (1 c s)
  then show ?case by simp
next
  case (2 c s e request rest)
  have step: "counts_within c (pool (perform c e s request)) (b + 2)"
    using "2.prems" by (intro perform_within) simp_all
  have "counts_within c (perform_all c (pool (perform c e s request)) rest)
          (b + 2 + 2 * int (length rest))"
    using "2.prems" step by (intro "2.IH" perform_well_formed) simp_all
  then show ?case
    by (simp add: ac_simps)
qed

text \<open>
  Claim C4, as stated, fails where the count has reached the largest value an \<open>int\<close>
  holds: one more add wraps it to the least value, which is negative.
\<close>

theorem ruleCount_wraps_negative:
  "well_formed scenario_constants max_pool \<and> counts_nonnegative scenario_constants max_pool \<and>
   mInterfaceRuleCount (modifyRuleCount max_pool 0 ADD) ! 0 = - 2147483648 \<and>
   \<not> counts_nonnegative scenario_constants (modifyRuleCount_run max_pool 0 [ADD]) \<and>
   mInterfaceRuleCount
     (pool (modifyLocalRoute scenario_constants all_fail max_pool 0 ADD ''wlan0'' ''192.168.1.7''))
     ! 0 = - 2147483648"
  by code_simp

text \<open>
  Claim C4, amended: for runs that cannot take a count past \<open>INT_MAX\<close>. On a pool whose
  counts lie between 0 and \<open>b\<close>, no count is negative after a run of rule-count updates on
  a slot when \<open>b\<close> plus the length of the run is at most \<open>INT_MAX\<close>, nor after a run of
  public operations, whatever their commands return, when \<open>b\<close> plus twice its length is at
  most \<open>INT_MAX\<close>. A remove on a count of 1 or less (so also an extra remove on a count
  already 0) leaves the count 0 and the name empty.
\<close>

theorem ruleCount_never_negative:
  assumes "well_formed c s" and "counts_within c s b"
    and "0 \<le> tableIndex" and "tableIndex < int (INTERFACES_TRACKED c)"
  shows "(b + int (length actions) \<le> INT_MAX \<longrightarrow>
            counts_nonnegative c (modifyRuleCount_run s tableIndex actions)) \<and>
         (b + 2 * int (length run) \<le> INT_MAX \<longrightarrow>
            counts_nonnegative c (perform_all c s run)) \<and>
         (action \<noteq> ADD \<and> mInterfaceRuleCount s ! nat tableIndex \<le> 1 \<longrightarrow>
            mInterfaceRuleCount (modifyRuleCount s tableIndex action) ! nat tableIndex = 0 \<and>
            mInterfaceTable (modifyRuleCount s tableIndex action) ! nat tableIndex = [])"
proof -
  have idx: "nat tableIndex < INTERFACES_TRACKED c"
    using assms(3,4) by simp
  have runs: "counts_nonnegative c (modifyRuleCount_run s tableIndex actions)"
    if "b + int (length actions) \<le> INT_MAX"
    using modifyRuleCount_run_within[OF assms(1,2) that]
    by (rule counts_within_nonnegative)
  have requests: "counts_nonnegative c (perform_all c s run)"
    if "b + 2 * int (length run) \<le> INT_MAX"
    using perform_all_within[OF assms(1,2) that]
    by (rule counts_within_nonnegative)
  have "0 \<le> mInterfaceRuleCount s ! nat tableIndex"
    using assms(2) idx by (simp add: counts_within_def)
  then have "int32 (mInterfaceRuleCount s ! nat tableIndex - 1) < 1"
    if "mInterfaceRuleCount s ! nat tableIndex \<le> 1"
    using that by (simp add: int32_def)
  then have clamp: "mInterfaceRuleCount (modifyRuleCount s tableIndex action) ! nat tableIndex = 0 \<and>
            mInterfaceTable (modifyRuleCount s tableIndex action) ! nat tableIndex = []"
    if "action \<noteq> ADD" and "mInterfaceRuleCount s ! nat tableIndex \<le> 1"
    using that assms(1) idx
    by (simp add: modifyRuleCount_count modifyRuleCount_name well_formed_def)
  show ?thesis
    using runs requests clamp by blast
qed

theorem ruleCount_never_negative_witness:
  "well_formed demo_constants demo_pool \<and> counts_within demo_constants demo_pool 2 \<and>
   counts_nonnegative demo_constants (modifyRuleCount_run demo_pool 2 [DEL, DEL, ADD, DEL, DEL]) \<and>
   mInterfaceRuleCount (modifyRuleCount_run demo_pool 2 [DEL, DEL, ADD, DEL, DEL]) ! 2 = 0 \<and>
   counts_nonnegative demo_constants
     (perform_all demo_constants demo_pool
        [(all_succeed, RemoveRoute ''eth0'' ''10.0.0.0'' 24 ''::''),
         (all_fail, ModifyLocalRoute 0 DEL ''wlan0'' ''192.168.1.7'')]) \<and>
   perform_all demo_constants demo_pool
        [(all_succeed, RemoveRoute ''eth0'' ''10.0.0.0'' 24 ''::''),
         (all_fail, ModifyLocalRoute 0 DEL ''wlan0'' ''192.168.1.7'')] =
     \<lparr>mInterfaceTable = [''wlan0'', [], [], []], mInterfaceRuleCount = [1, 0, 0, 0]\<rparr> \<and>
   mInterfaceRuleCount (modifyRuleCount demo_pool 2 DEL) ! nat 2 = 0 \<and>
   mInterfaceTable (modifyRuleCount demo_pool 2 DEL) ! nat 2 = []"
proof -
  have wf: "well_formed demo_constants demo_pool"
    by code_simp
  have within: "counts_within demo_constants demo_pool 2"
    by code_simp
  have lo: "(0::int) \<le> 2"
    by simp
  have hi: "2 < int (INTERFACES_TRACKED demo_constants)"
    by code_simp
  have room: "2 + int (length [DEL, DEL, ADD, DEL, DEL]) \<le> INT_MAX"
    "2 + 2 * int (length [(all_succeed, RemoveRoute ''eth0'' ''10.0.0.0'' 24 ''::''),
          (all_fail, ModifyLocalRoute 0 DEL ''wlan0'' ''192.168.1.7'')]) \<le> INT_MAX"
    by (simp_all add: INT_MAX_def)
  have del: "DEL \<noteq> ADD \<and> mInterfaceRuleCount demo_pool ! nat 2 \<le> 1"
    by code_simp
  have run: "mInterfaceRuleCount (modifyRuleCount_run demo_pool 2 [DEL, DEL, ADD, DEL, DEL]) ! 2 = 0"
    by code_simp
  have requests: "perform_all demo_constants demo_pool
        [(all_succeed, RemoveRoute ''eth0'' ''10.0.0.0'' 24 ''::''),
         (all_fail, ModifyLocalRoute 0 DEL ''wlan0'' ''192.168.1.7'')] =
     \<lparr>mInterfaceTable = [''wlan0'', [], [], []], mInterfaceRuleCount = [1, 0, 0, 0]\<rparr>"
    by code_simp
  show ?thesis
    using wf within del run requests room
      ruleCount_never_negative[OF wf within lo hi, of "[DEL, DEL, ADD, DEL, DEL]"
        "[(all_succeed, RemoveRoute ''eth0'' ''10.0.0.0'' 24 ''::''),
          (all_fail, ModifyLocalRoute 0 DEL ''wlan0'' ''192.168.1.7'')]" DEL]
    by simp
qed

section \<open>Local routes\<close>

text \<open>
  Claim C6. Given an index in range whose slot holds a name, \<open>modifyLocalRoute\<close> returns
  the status of its one command, and the pool it leaves is the rule-count update of the
  pool it was given, whatever that status is: the update does not wait for the command.
  So also when the command fails, an add has raised the slot's count by one and a remove
  has lowered it by one, to 0 with the name cleared when it was 1 or less; no other slot
  changes. (The counts are given first as the 32-bit arithmetic leaves them, then for a
  count from 0 to below \<open>INT_MAX\<close>, where nothing wraps.)
\<close>

theorem modifyLocalRoute_counts_before_command:
  assumes "well_formed c s" and "0 \<le> tableIndex" and "tableIndex < int (INTERFACES_TRACKED c)"
    and "mInterfaceTable s ! nat tableIndex \<noteq> []"
  shows "ret (modifyLocalRoute c e s tableIndex action iface addr) =
           runCmd e (local_route_cmd c action iface addr tableIndex) \<and>
         trace (modifyLocalRoute c e s tableIndex action iface addr) =
           [Exec (local_route_cmd c action iface addr tableIndex)] \<and>
         pool (modifyLocalRoute c e s tableIndex action iface addr) =
           modifyRuleCount s tableIndex action \<and>
         mInterfaceRuleCount (pool (modifyLocalRoute c e s tableIndex action iface addr))
           ! nat tableIndex =
           (if action = ADD then int32 (mInterfaceRuleCount s ! nat tableIndex + 1)
            else if int32 (mInterfaceRuleCount s ! nat tableIndex - 1) < 1 then 0
            else int32 (mInterfaceRuleCount s ! nat tableIndex - 1)) \<and>
         mInterfaceTable (pool (modifyLocalRoute c e s tableIndex action iface addr))
           ! nat tableIndex =
           (if action \<noteq> ADD \<and> int32 (mInterfaceRuleCount s ! nat tableIndex - 1) < 1 then []
            else mInterfaceTable s ! nat tableIndex) \<and>
         (0 \<le> mInterfaceRuleCount s ! nat tableIndex \<and>
          mInterfaceRuleCount s ! nat tableIndex < INT_MAX \<longrightarrow>
            mInterfaceRuleCount (pool (modifyLocalRoute c e s tableIndex action iface addr))
              ! nat tableIndex =
              (if action = ADD then mInterfaceRuleCount s ! nat tableIndex + 1
               else if mInterfaceRuleCount s ! nat tableIndex \<le> 1 then 0
               else mInterfaceRuleCount s ! nat tableIndex - 1) \<and>
            mInterfaceTable (pool (modifyLocalRoute c e s tableIndex action iface addr))
              ! nat tableIndex =
              (if action \<noteq> ADD \<and> mInterfaceRuleCount s ! nat tableIndex \<le> 1 then []
               else mInterfaceTable s ! nat tableIndex)) \<and>
         (\<forall>i. i \<noteq> nat tableIndex \<longrightarrow>
            mInterfaceRuleCount (pool (modifyLocalRoute c e s tableIndex action iface addr)) ! i =
              mInterfaceRuleCount s ! i \<and>
            mInterfaceTable (pool (modifyLocalRoute c e s tableIndex action iface addr)) ! i =
              mInterfaceTable s ! i)"
proof -
  have valid: "verifyTableIndex c s tableIndex = 0"
    using assms(2-4) by (simp add: verifyTableIndex_ok)
  have idx: "nat tableIndex < length (mInterfaceRuleCount s)"
    "nat tableIndex < length (mInterfaceTable s)"
    using assms(1-3) by (simp_all add: well_formed_def)
  have result: "modifyLocalRoute c e s tableIndex action iface addr =
      \<lparr>ret = runCmd e (local_route_cmd c action iface addr tableIndex),
       pool = modifyRuleCount s tableIndex action,
       trace = [Exec (local_route_cmd c action iface addr tableIndex)]\<rparr>"
    by (simp add: modifyLocalRoute_eq valid)
  have plain: "int32 (mInterfaceRuleCount s ! nat tableIndex + 1) =
                 mInterfaceRuleCount s ! nat tableIndex + 1"
    "int32 (mInterfaceRuleCount s ! nat tableIndex - 1) =
                 mInterfaceRuleCount s ! nat tableIndex - 1"
    if "0 \<le> mInterfaceRuleCount s ! nat tableIndex"
      and "mInterfaceRuleCount s ! nat tableIndex < INT_MAX"
    using that by (simp_all add: int32_def INT_MAX_def)
  show ?thesis
    unfolding result
    by (simp add: modifyRuleCount_count[OF idx(1)] modifyRuleCount_name[OF idx(2)]
        modifyRuleCount_count_other modifyRuleCount_name_other plain)
qed

theorem modifyLocalRoute_counts_before_command_witness:
  "well_formed demo_constants demo_pool \<and>
   modifyLocalRoute demo_constants all_fail demo_pool 2 ADD ''eth0'' ''192.168.1.7'' =
     \<lparr>ret = 1,
      pool = \<lparr>mInterfaceTable = [''wlan0'', [], ''eth0'', []], mInterfaceRuleCount = [2, 0, 2, 0]\<rparr>,
      trace = [Exec [''/system/bin/ip'', ''route'', ''add'', ''192.168.1.7'', ''dev'', ''eth0'',
                     ''table'', ''102'']]\<rparr> \<and>
   mInterfaceRuleCount
     (pool (modifyLocalRoute demo_constants all_fail demo_pool 2 ADD ''eth0'' ''192.168.1.7'')) ! nat 2
     = 2 \<and>
   mInterfaceRuleCount
     (pool (modifyLocalRoute demo_constants all_fail demo_pool 2 DEL ''eth0'' ''192.168.1.7'')) ! nat 2
     = 0 \<and>
   mInterfaceTable
     (pool (modifyLocalRoute demo_constants all_fail demo_pool 2 DEL ''eth0'' ''192.168.1.7'')) ! nat 2
     = [] \<and>
   ret (modifyLocalRoute demo_constants all_fail demo_pool 2 DEL ''eth0'' ''192.168.1.7'') = 1 \<and>
   trace (modifyLocalRoute demo_constants all_fail demo_pool 2 DEL ''eth0'' ''192.168.1.7'') =
     [Exec [''/system/bin/ip'', ''route'', ''del'', ''192.168.1.7'', ''dev'', ''eth0'',
            ''table'', ''102'']]"
proof -
  have wf: "well_formed demo_constants demo_pool"
    by code_simp
  have lo: "(0::int) \<le> 2"
    by simp
  have hi: "2 < int (INTERFACES_TRACKED demo_constants)"
    by code_simp
  have named: "mInterfaceTable demo_pool ! nat 2 \<noteq> []"
    by code_simp
  have count: "mInterfaceRuleCount demo_pool ! 2 = 1" "mInterfaceTable demo_pool ! 2 = ''eth0''"
    by (simp_all add: demo_pool_def)
  have room: "0 \<le> mInterfaceRuleCount demo_pool ! nat 2 \<and>
              mInterfaceRuleCount demo_pool ! nat 2 < INT_MAX"
    by (simp add: demo_pool_def INT_MAX_def)
  have facts: "DEL \<noteq> ADD"
    "runCmd all_fail (local_route_cmd demo_constants ADD ''eth0'' ''192.168.1.7'' 2) = 1"
    "runCmd all_fail (local_route_cmd demo_constants DEL ''eth0'' ''192.168.1.7'' 2) = 1"
    "local_route_cmd demo_constants ADD ''eth0'' ''192.168.1.7'' 2 =
       [''/system/bin/ip'', ''route'', ''add'', ''192.168.1.7'', ''dev'', ''eth0'',
        ''table'', ''102'']"
    "local_route_cmd demo_constants DEL ''eth0'' ''192.168.1.7'' 2 =
       [''/system/bin/ip'', ''route'', ''del'', ''192.168.1.7'', ''dev'', ''eth0'',
        ''table'', ''102'']"
    by code_simp+
  have whole: "modifyLocalRoute demo_constants all_fail demo_pool 2 ADD ''eth0'' ''192.168.1.7'' =
     \<lparr>ret = 1,
      pool = \<lparr>mInterfaceTable = [''wlan0'', [], ''eth0'', []], mInterfaceRuleCount = [2, 0, 2, 0]\<rparr>,
      trace = [Exec [''/system/bin/ip'', ''route'', ''add'', ''192.168.1.7'', ''dev'', ''eth0'',
                     ''table'', ''102'']]\<rparr>"
    by code_simp
  note at_add = modifyLocalRoute_counts_before_command[OF wf lo hi named, of all_fail ADD
      "''eth0''" "''192.168.1.7''"]
  note at_del = modifyLocalRoute_counts_before_command[OF wf lo hi named, of all_fail DEL
      "''eth0''" "''192.168.1.7''"]
  have "mInterfaceRuleCount
     (pool (modifyLocalRoute demo_constants all_fail demo_pool 2 ADD ''eth0'' ''192.168.1.7'')) ! nat 2
     = (if ADD = ADD then mInterfaceRuleCount demo_pool ! nat 2 + 1
        else if mInterfaceRuleCount demo_pool ! nat 2 \<le> 1 then 0
        else mInterfaceRuleCount demo_pool ! nat 2 - 1)"
    using at_add room by blast
  then have add: "mInterfaceRuleCount
     (pool (modifyLocalRoute demo_constants all_fail demo_pool 2 ADD ''eth0'' ''192.168.1.7'')) ! nat 2
     = 2"
    by (simp add: count)
  have "mInterfaceRuleCount
     (pool (modifyLocalRoute demo_constants all_fail demo_pool 2 DEL ''eth0'' ''192.168.1.7'')) ! nat 2
     = (if DEL = ADD then mInterfaceRuleCount demo_pool ! nat 2 + 1
        else if mInterfaceRuleCount demo_pool ! nat 2 \<le> 1 then 0
        else mInterfaceRuleCount demo_pool ! nat 2 - 1) \<and>
   mInterfaceTable
     (pool (modifyLocalRoute demo_constants all_fail demo_pool 2 DEL ''eth0'' ''192.168.1.7'')) ! nat 2
     = (if DEL \<noteq> ADD \<and> mInterfaceRuleCount demo_pool ! nat 2 \<le> 1 then []
        else mInterfaceTable demo_pool ! nat 2)"
    using at_del room by blast
  then have del_count: "mInterfaceRuleCount
     (pool (modifyLocalRoute demo_constants all_fail demo_pool 2 DEL ''eth0'' ''192.168.1.7'')) ! nat 2
     = 0 \<and>
   mInterfaceTable
     (pool (modifyLocalRoute demo_constants all_fail demo_pool 2 DEL ''eth0'' ''192.168.1.7'')) ! nat 2
     = []"
    by (simp add: count facts(1))
  have "ret (modifyLocalRoute demo_constants all_fail demo_pool 2 DEL ''eth0'' ''192.168.1.7'') =
     runCmd all_fail (local_route_cmd demo_constants DEL ''eth0'' ''192.168.1.7'' 2) \<and>
   trace (modifyLocalRoute demo_constants all_fail demo_pool 2 DEL ''eth0'' ''192.168.1.7'') =
     [Exec (local_route_cmd demo_constants DEL ''eth0'' ''192.168.1.7'' 2)]"
    using at_del by blast
  then have del_run:
   "ret (modifyLocalRoute demo_constants all_fail demo_pool 2 DEL ''eth0'' ''192.168.1.7'') = 1 \<and>
   trace (modifyLocalRoute demo_constants all_fail demo_pool 2 DEL ''eth0'' ''192.168.1.7'') =
     [Exec [''/system/bin/ip'', ''route'', ''del'', ''192.168.1.7'', ''dev'', ''eth0'',
            ''table'', ''102'']]"
    by (simp add: facts(5) all_fail_def)
  have del: "mInterfaceRuleCount
     (pool (modifyLocalRoute demo_constants all_fail demo_pool 2 DEL ''eth0'' ''192.168.1.7'')) ! nat 2
     = 0 \<and>
   mInterfaceTable
     (pool (modifyLocalRoute demo_constants all_fail demo_pool 2 DEL ''eth0'' ''192.168.1.7'')) ! nat 2
     = [] \<and>
   ret (modifyLocalRoute demo_constants all_fail demo_pool 2 DEL ''eth0'' ''192.168.1.7'') = 1 \<and>
   trace (modifyLocalRoute demo_constants all_fail demo_pool 2 DEL ''eth0'' ''192.168.1.7'') =
     [Exec [''/system/bin/ip'', ''route'', ''del'', ''192.168.1.7'', ''dev'', ''eth0'',
            ''table'', ''102'']]"
    using del_count del_run by (simp only: simp_thms)
  show ?thesis
    using wf whole add del by (simp only: simp_thms)
qed


section \<open>UID rules\<close>

text \<open>
  Claim C7. \<open>setUidRule\<close> never changes the pool. For an interface that no slot holds it
  returns -1 with \<open>errno = EINVAL\<close> and does nothing else: no slot is allocated, the
  UID-mark map is not called and no firewall command is issued. For an interface found at
  index \<open>k\<close> it calls the map once (add or remove, with mark \<open>k + BASE_TABLE_NUMBER\<close>);
  when the map refuses, it returns -1 with \<open>errno = EINVAL\<close> and issues no firewall
  command; when the map accepts, it issues exactly one firewall command, the mark-setting
  rule for both address families, and returns its status.
\<close>

theorem setUidRule_error_cases:
  assumes "well_formed c s"
  shows "(\<not> tracked c s iface \<longrightarrow>
            setUidRule c e s iface uid_start uid_end add =
              \<lparr>ret = -1, pool = s, trace = [SetErrno EINVAL]\<rparr>) \<and>
         (findTableNumber c s iface = int k \<and> add \<and>
          \<not> uidMarkMap_add e uid_start uid_end (int k + BASE_TABLE_NUMBER c) \<longrightarrow>
            setUidRule c e s iface uid_start uid_end add =
              \<lparr>ret = -1, pool = s,
               trace = [UidMarkMapAdd uid_start uid_end (int k + BASE_TABLE_NUMBER c),
                        SetErrno EINVAL]\<rparr>) \<and>
         (findTableNumber c s iface = int k \<and> \<not> add \<and>
          \<not> uidMarkMap_remove e uid_start uid_end (int k + BASE_TABLE_NUMBER c) \<longrightarrow>
            setUidRule c e s iface uid_start uid_end add =
              \<lparr>ret = -1, pool = s,
               trace = [UidMarkMapRemove uid_start uid_end (int k + BASE_TABLE_NUMBER c),
                        SetErrno EINVAL]\<rparr>) \<and>
         (findTableNumber c s iface = int k \<and> add \<and>
          uidMarkMap_add e uid_start uid_end (int k + BASE_TABLE_NUMBER c) \<longrightarrow>
            setUidRule c e s iface uid_start uid_end add =
              \<lparr>ret = execIptables e V4V6
                       (uid_mark_args True uid_start uid_end (int k + BASE_TABLE_NUMBER c)),
               pool = s,
               trace = [UidMarkMapAdd uid_start uid_end (int k + BASE_TABLE_NUMBER c),
                        ExecIptables V4V6
                          (uid_mark_args True uid_start uid_end
                             (int k + BASE_TABLE_NUMBER c))]\<rparr>) \<and>
         (findTableNumber c s iface = int k \<and> \<not> add \<and>
          uidMarkMap_remove e uid_start uid_end (int k + BASE_TABLE_NUMBER c) \<longrightarrow>
            setUidRule c e s iface uid_start uid_end add =
              \<lparr>ret = execIptables e V4V6
                       (uid_mark_args False uid_start uid_end (int k + BASE_TABLE_NUMBER c)),
               pool = s,
               trace = [UidMarkMapRemove uid_start uid_end (int k + BASE_TABLE_NUMBER c),
                        ExecIptables V4V6
                          (uid_mark_args False uid_start uid_end
                             (int k + BASE_TABLE_NUMBER c))]\<rparr>)"
proof -
  have "findTableNumber c s iface = -1" if "\<not> tracked c s iface"
    using assms that by (simp add: findTableNumber_none)
  then have untracked: "\<not> tracked c s iface \<longrightarrow>
      setUidRule c e s iface uid_start uid_end add =
        \<lparr>ret = -1, pool = s, trace = [SetErrno EINVAL]\<rparr>"
    by (simp add: setUidRule_def)
  have found: "findTableNumber c s iface \<noteq> -1" if "findTableNumber c s iface = int k"
    using that by simp
  show ?thesis
    using untracked found
    by (simp add: setUidRule_def uid_mark_args_def Let_def)
qed

theorem setUidRule_error_cases_witness:
  "well_formed demo_constants demo_pool \<and>
   setUidRule demo_constants all_succeed demo_pool ''rmnet0'' 1000 1999 True =
     \<lparr>ret = -1, pool = demo_pool, trace = [SetErrno EINVAL]\<rparr> \<and>
   setUidRule demo_constants all_fail demo_pool ''eth0'' 1000 1999 True =
     \<lparr>ret = -1, pool = demo_pool, trace = [UidMarkMapAdd 1000 1999 102, SetErrno EINVAL]\<rparr> \<and>
   setUidRule demo_constants all_fail demo_pool ''eth0'' 1000 1999 False =
     \<lparr>ret = -1, pool = demo_pool, trace = [UidMarkMapRemove 1000 1999 102, SetErrno EINVAL]\<rparr> \<and>
   setUidRule demo_constants all_succeed demo_pool ''eth0'' 1000 1999 True =
     \<lparr>ret = 0, pool = demo_pool,
      trace = [UidMarkMapAdd 1000 1999 102,
               ExecIptables V4V6
                 [''-t'', ''mangle'', ''-A'', ''st_mangle_OUTPUT'', ''-m'', ''owner'',
                  ''--uid-owner'', ''1000-1999'', ''-j'', ''MARK'', ''--set-mark'', ''102'']]\<rparr>"
proof -
  have wf: "well_formed demo_constants demo_pool"
    by code_simp
  have un: "\<not> tracked demo_constants demo_pool ''rmnet0''"
    by code_simp
  have found: "findTableNumber demo_constants demo_pool ''eth0'' = 2"
    by code_simp
  have base: "2 + BASE_TABLE_NUMBER demo_constants = 102"
    by code_simp
  have refuse: "\<not> uidMarkMap_add all_fail 1000 1999 102"
    "\<not> uidMarkMap_remove all_fail 1000 1999 102"
    by (simp_all add: all_fail_def)
  have accept: "uidMarkMap_add all_succeed 1000 1999 102"
    by (simp add: all_succeed_def)
  have status: "execIptables all_succeed V4V6 (uid_mark_args True 1000 1999 102) = 0"
    by (simp add: all_succeed_def)
  have args: "uid_mark_args True 1000 1999 102 =
    [''-t'', ''mangle'', ''-A'', ''st_mangle_OUTPUT'', ''-m'', ''owner'',
     ''--uid-owner'', ''1000-1999'', ''-j'', ''MARK'', ''--set-mark'', ''102'']"
    by (simp add: uid_mark_args_def fmt_d_def digits.simps snprintf_def LOCAL_MANGLE_OUTPUT_def)
  have t1: "setUidRule demo_constants all_succeed demo_pool ''rmnet0'' 1000 1999 True =
     \<lparr>ret = -1, pool = demo_pool, trace = [SetErrno EINVAL]\<rparr>"
    using setUidRule_error_cases[OF wf, of "''rmnet0''" all_succeed 1000 1999 True 0] un
    by blast
  have t2: "setUidRule demo_constants all_fail demo_pool ''eth0'' 1000 1999 True =
     \<lparr>ret = -1, pool = demo_pool, trace = [UidMarkMapAdd 1000 1999 102, SetErrno EINVAL]\<rparr>"
    using setUidRule_error_cases[OF wf, of "''eth0''" all_fail 1000 1999 True 2]
      found refuse(1) by (simp only: of_nat_numeral base simp_thms)
  have t3: "setUidRule demo_constants all_fail demo_pool ''eth0'' 1000 1999 False =
     \<lparr>ret = -1, pool = demo_pool, trace = [UidMarkMapRemove 1000 1999 102, SetErrno EINVAL]\<rparr>"
    using setUidRule_error_cases[OF wf, of "''eth0''" all_fail 1000 1999 False 2]
      found refuse(2) by (simp only: of_nat_numeral base simp_thms)
  have t4: "setUidRule demo_constants all_succeed demo_pool ''eth0'' 1000 1999 True =
     \<lparr>ret = 0, pool = demo_pool,
      trace = [UidMarkMapAdd 1000 1999 102,
               ExecIptables V4V6
                 [''-t'', ''mangle'', ''-A'', ''st_mangle_OUTPUT'', ''-m'', ''owner'',
                  ''--uid-owner'', ''1000-1999'', ''-j'', ''MARK'', ''--set-mark'', ''102'']]\<rparr>"
    using setUidRule_error_cases[OF wf, of "''eth0''" all_succeed 1000 1999 True 2]
      found accept status args by (simp only: of_nat_numeral base simp_thms)
  show ?thesis
    using wf t1 t2 t3 t4 by (simp only: simp_thms)
qed


section \<open>Lookup and allocation\<close>

lemma tracked_cases:
  assumes "well_formed c s" and "tracked c s iface"
  obtains k where "findTableNumber c s iface = int k" and "k < INTERFACES_TRACKED c"
    and "mInterfaceTable s ! k = iface" and "\<forall>j<k. mInterfaceTable s ! j \<noteq> iface"
proof (cases c s iface rule: findTableNumber_cases)
  case none
  then show ?thesis
    using assms by (simp add: findTableNumber_none)
next
  case (some k)
  then show ?thesis
    using assms(1) that by (simp add: findTableNumber_some)
qed

text \<open>
  Claim C10. \<open>findTableNumber\<close> returns -1 exactly when no slot holds the name, and
  otherwise the index of the first slot that holds it: it returns \<open>k\<close> exactly when slot
  \<open>k\<close> holds the name and no slot below \<open>k\<close> does. So the lookup of the empty name gives
  the lowest free slot, and when \<open>addRoute\<close> or \<open>setFwmarkRule\<close> meets an interface that
  no slot holds, the name (cut to \<open>IFNAMSIZ\<close> characters) is written into the lowest free
  slot and nowhere else, whatever the commands return.
\<close>

theorem findTableNumber_smallest_match:
  assumes "well_formed c s"
  shows "(findTableNumber c s iface = -1 \<longleftrightarrow> \<not> tracked c s iface) \<and>
         (\<forall>k. findTableNumber c s iface = int k \<longleftrightarrow>
              k < INTERFACES_TRACKED c \<and> mInterfaceTable s ! k = iface \<and>
              (\<forall>j<k. mInterfaceTable s ! j \<noteq> iface)) \<and>
         (tracked c s iface \<longrightarrow>
            (\<exists>k<INTERFACES_TRACKED c. findTableNumber c s iface = int k)) \<and>
         (\<not> tracked c s iface \<and> lowest_free c s k \<longrightarrow>
            findTableNumber c s [] = int k \<and>
            mInterfaceTable (pool (addRoute c e s iface dest prefix gateway)) =
              (mInterfaceTable s)[k := take (IFNAMSIZ c) iface] \<and>
            mInterfaceTable (pool (setFwmarkRule c e s iface add)) =
              (mInterfaceTable s)[k := take (IFNAMSIZ c) iface])"
proof -
  have none: "findTableNumber c s iface = -1 \<longleftrightarrow> \<not> tracked c s iface"
    using assms by (rule findTableNumber_none)
  have some: "\<forall>k. findTableNumber c s iface = int k \<longleftrightarrow>
              k < INTERFACES_TRACKED c \<and> mInterfaceTable s ! k = iface \<and>
              (\<forall>j<k. mInterfaceTable s ! j \<noteq> iface)"
    using assms by (simp add: findTableNumber_some)
  have found: "tracked c s iface \<longrightarrow>
            (\<exists>k<INTERFACES_TRACKED c. findTableNumber c s iface = int k)"
    using assms by (auto elim: tracked_cases)
  have alloc: "findTableNumber c s [] = int k \<and>
            mInterfaceTable (pool (addRoute c e s iface dest prefix gateway)) =
              (mInterfaceTable s)[k := take (IFNAMSIZ c) iface] \<and>
            mInterfaceTable (pool (setFwmarkRule c e s iface add)) =
              (mInterfaceTable s)[k := take (IFNAMSIZ c) iface]"
    if "\<not> tracked c s iface" and "lowest_free c s k"
  proof -
    have a: "findTableNumber c s iface = -1"
      using that(1) none by simp
    have b: "findTableNumber c s [] = int k"
      using that(2) by (simp add: findTableNumber_empty_some)
    show ?thesis
      by (simp add: b addRoute_allocates[OF a b] modifyRoute_add_table
          setFwmarkRule_allocates[OF a b])
  qed
  show ?thesis
    using none some found alloc by blast
qed

theorem findTableNumber_smallest_match_witness:
  "well_formed demo_constants demo_pool \<and>
   findTableNumber demo_constants demo_pool ''eth0'' = 2 \<and>
   findTableNumber demo_constants demo_pool ''rmnet0'' = -1 \<and>
   findTableNumber demo_constants demo_pool [] = 1 \<and>
   mInterfaceTable
     (pool (addRoute demo_constants all_succeed demo_pool ''rmnet0'' ''10.0.0.0'' 24 ''::'')) =
     [''wlan0'', ''rmnet0'', ''eth0'', []] \<and>
   mInterfaceTable (pool (setFwmarkRule demo_constants all_fail demo_pool ''rmnet0'' True)) =
     [''wlan0'', ''rmnet0'', ''eth0'', []]"
proof -
  have wf: "well_formed demo_constants demo_pool"
    by code_simp
  have un: "\<not> tracked demo_constants demo_pool ''rmnet0''"
    by code_simp
  have free: "lowest_free demo_constants demo_pool 1"
    by code_simp
  have at2: "2 < INTERFACES_TRACKED demo_constants \<and> mInterfaceTable demo_pool ! 2 = ''eth0'' \<and>
             (\<forall>j<2. mInterfaceTable demo_pool ! j \<noteq> ''eth0'')"
    by (simp add: demo_constants_def demo_pool_def less_Suc_eq numeral_2_eq_2)
  have upd: "(mInterfaceTable demo_pool)[1 := take (IFNAMSIZ demo_constants) ''rmnet0''] =
             [''wlan0'', ''rmnet0'', ''eth0'', []]"
    by code_simp
  have t1: "findTableNumber demo_constants demo_pool ''eth0'' = 2"
    using findTableNumber_smallest_match[OF wf, of "''eth0''" 1 all_succeed "[]" 0 "[]" True] at2
    by (metis of_nat_numeral)
  have t2: "findTableNumber demo_constants demo_pool ''rmnet0'' = -1 \<and>
        findTableNumber demo_constants demo_pool [] = 1 \<and>
        mInterfaceTable
          (pool (addRoute demo_constants all_succeed demo_pool ''rmnet0'' ''10.0.0.0'' 24 ''::'')) =
          [''wlan0'', ''rmnet0'', ''eth0'', []]"
    using findTableNumber_smallest_match[OF wf, of "''rmnet0''" 1 all_succeed "''10.0.0.0''" 24
        "''::''" True] un free upd
    by simp
  have t3: "mInterfaceTable (pool (setFwmarkRule demo_constants all_fail demo_pool ''rmnet0'' True)) =
     [''wlan0'', ''rmnet0'', ''eth0'', []]"
    using findTableNumber_smallest_match[OF wf, of "''rmnet0''" 1 all_fail "''10.0.0.0''" 24
        "''::''" True] un free upd
    by simp
  show ?thesis
    using wf t1 t2 t3 by (simp only: simp_thms)
qed

section \<open>The invariant of the pool\<close>



















section \<open>The invariant across the public operations\<close>





section \<open>Counting routes and fwmark rules\<close>

lemma modifyRoute_count:
  assumes "nat tableIndex < length (mInterfaceRuleCount s)"
    and "runCmd e (route_cmd c action iface dest prefix gateway tableIndex) = 0"
    and "0 \<le> mInterfaceRuleCount s ! nat tableIndex"
    and "mInterfaceRuleCount s ! nat tableIndex + 2 \<le> INT_MAX"
  shows "mInterfaceRuleCount
           (pool (modifyRoute c e s action iface dest prefix gateway tableIndex)) ! nat tableIndex =
         (if action = ADD then mInterfaceRuleCount s ! nat tableIndex + 2
          else if mInterfaceRuleCount s ! nat tableIndex \<le> 2 then 0
          else mInterfaceRuleCount s ! nat tableIndex - 2)"
proof -
  have len: "nat tableIndex < length (mInterfaceRuleCount (modifyRuleCount s tableIndex action))"
    using assms(1) by (simp add: modifyRuleCount_lengths)
  show ?thesis
    using assms
    by (simp add: modifyRoute_pool modifyRuleCount_count[OF len] modifyRuleCount_count
        int32_def INT_MAX_def)
qed

text \<open>
  Claim C1 says that a successful route modification changes the slot's count by exactly
  one. \<open>modifyRoute\<close> updates the count in place and then calls \<open>modifyRuleCount\<close>, which
  updates it again (\<open>modifyRoute_eq\<close>, \<open>modifyRoute_count\<close>): the count moves by two. In the
  scenario of the specification the first \<open>addRoute\<close> for \<open>wlan0\<close> leaves the count 2, not
  1, and one \<open>removeRoute\<close> takes it from 2 to 0 and releases the slot.
\<close>

theorem first_route_counts_two:
  "addRoute scenario_constants all_succeed (SecondaryTableController scenario_constants)
     ''wlan0'' ''10.0.0.0'' 24 ''::'' =
     \<lparr>ret = 0,
      pool = \<lparr>mInterfaceTable = [''wlan0'', []], mInterfaceRuleCount = [2, 0]\<rparr>,
      trace = [Exec [''/system/bin/ip'', ''route'', ''add'', ''10.0.0.0/24'', ''dev'', ''wlan0'',
                     ''table'', ''100''],
               SendMsg CommandOkay ''Route modified'' False]\<rparr> \<and>
   removeRoute scenario_constants all_succeed
     \<lparr>mInterfaceTable = [''wlan0'', []], mInterfaceRuleCount = [2, 0]\<rparr>
     ''wlan0'' ''10.0.0.0'' 24 ''::'' =
     \<lparr>ret = 0,
      pool = \<lparr>mInterfaceTable = [[], []], mInterfaceRuleCount = [0, 0]\<rparr>,
      trace = [Exec [''/system/bin/ip'', ''route'', ''del'', ''10.0.0.0/24'', ''dev'', ''wlan0'',
                     ''table'', ''100''],
               SendMsg CommandOkay ''Route modified'' False]\<rparr>"
  by code_simp

text \<open>
  Claim C2, as stated, fails. With \<open>wlan0\<close> tracked at count 2, a successful
  \<open>addFwmarkRule\<close> does not raise the count and a successful \<open>removeFwmarkRule\<close> does
  not lower it; and after a fwmark rule was added and removed again on the constructor's
  pool, the count is 0 and \<open>wlan0\<close> is still found in slot 0.
\<close>

theorem fwmark_rule_not_counted:
  "ret (addFwmarkRule scenario_constants all_succeed wlan0_routed ''wlan0'') = 0 \<and>
   mInterfaceRuleCount (pool (addFwmarkRule scenario_constants all_succeed wlan0_routed ''wlan0'')) ! 0
     \<noteq> mInterfaceRuleCount wlan0_routed ! 0 + 1 \<and>
   ret (removeFwmarkRule scenario_constants all_succeed wlan0_routed ''wlan0'') = 0 \<and>
   mInterfaceRuleCount (pool (removeFwmarkRule scenario_constants all_succeed wlan0_routed ''wlan0'')) ! 0
     \<noteq> mInterfaceRuleCount wlan0_routed ! 0 - 1 \<and>
   ret (removeFwmarkRule scenario_constants all_succeed wlan0_marked ''wlan0'') = 0 \<and>
   mInterfaceRuleCount (pool (removeFwmarkRule scenario_constants all_succeed wlan0_marked ''wlan0'')) ! 0
     = 0 \<and>
   findTableNumber scenario_constants
     (pool (removeFwmarkRule scenario_constants all_succeed wlan0_marked ''wlan0'')) ''wlan0'' = 0"
  by code_simp

text \<open>
  Claim C2, amended. \<open>setFwmarkRule\<close>, adding or removing, whatever its commands return,
  leaves every rule count as it was and every named slot with its name: fwmark rules are
  not counted and removing one releases no slot. For an interface that the lookup finds,
  it leaves the whole pool as it was.
\<close>

theorem setFwmarkRule_leaves_counts:
  "mInterfaceRuleCount (pool (setFwmarkRule c e s iface add)) = mInterfaceRuleCount s \<and>
   (\<forall>i. mInterfaceTable s ! i \<noteq> [] \<longrightarrow>
        mInterfaceTable (pool (setFwmarkRule c e s iface add)) ! i = mInterfaceTable s ! i) \<and>
   (findTableNumber c s iface \<noteq> -1 \<longrightarrow> pool (setFwmarkRule c e s iface add) = s)"
proof -
  have "(mInterfaceTable s)[nat (findTableNumber c s []) := name] ! i = mInterfaceTable s ! i"
    if "mInterfaceTable s ! i \<noteq> []" and "findTableNumber c s [] \<noteq> -1" for i name
  proof (cases c s "[]::string" rule: findTableNumber_cases)
    case none
    then show ?thesis using that(2) by simp
  next
    case (some k)
    then have "mInterfaceTable s ! k = []"
      by (simp add: findTableNumber_empty_some lowest_free_def)
    then have "i \<noteq> k"
      using that(1) by auto
    then show ?thesis
      using some(1) by simp
  qed
  then show ?thesis
    by (simp add: setFwmarkRule_pool)
qed

theorem setFwmarkRule_leaves_counts_witness:
  "findTableNumber demo_constants demo_pool ''eth0'' \<noteq> -1 \<and>
   pool (setFwmarkRule demo_constants all_succeed demo_pool ''eth0'' False) = demo_pool \<and>
   mInterfaceRuleCount (pool (setFwmarkRule demo_constants all_succeed demo_pool ''rmnet0'' True)) =
     [2, 0, 1, 0] \<and>
   mInterfaceTable (pool (setFwmarkRule demo_constants all_succeed demo_pool ''rmnet0'' True)) ! 2 =
     ''eth0''"
proof -
  have found: "findTableNumber demo_constants demo_pool ''eth0'' \<noteq> -1"
    by code_simp
  have counts: "mInterfaceRuleCount demo_pool = [2, 0, 1, 0]"
    by (simp add: demo_pool_def)
  have name: "mInterfaceTable demo_pool ! 2 = ''eth0''"
    by (simp add: demo_pool_def)
  have t1: "pool (setFwmarkRule demo_constants all_succeed demo_pool ''eth0'' False) = demo_pool"
    using setFwmarkRule_leaves_counts[of demo_constants all_succeed demo_pool "''eth0''" False]
      found by blast
  have t2: "mInterfaceRuleCount
              (pool (setFwmarkRule demo_constants all_succeed demo_pool ''rmnet0'' True)) =
            [2, 0, 1, 0] \<and>
            mInterfaceTable
              (pool (setFwmarkRule demo_constants all_succeed demo_pool ''rmnet0'' True)) ! 2 =
            ''eth0''"
    using setFwmarkRule_leaves_counts[of demo_constants all_succeed demo_pool "''rmnet0''" True]
      counts name by simp
  show ?thesis
    using found t1 t2 by (simp only: simp_thms)
qed

section \<open>The index of a tracked interface\<close>

lemma modifyRoute_first_command:
  "hd (trace (modifyRoute c e s action iface dest prefix gateway tableIndex)) =
     Exec (route_cmd c action iface dest prefix gateway tableIndex)"
  by (simp add: modifyRoute_eq)

lemma setFwmarkRule_first_command:
  assumes "findTableNumber c s iface = int k \<or>
           (findTableNumber c s iface = -1 \<and> findTableNumber c s [] = int k)"
  shows "hd (trace (setFwmarkRule c e s iface add)) = Exec (fwmark_cmd c add (int k))"
  using assms
proof
  assume "findTableNumber c s iface = int k"
  then show ?thesis
    by (simp add: setFwmarkRule_tracked)
next
  assume "findTableNumber c s iface = -1 \<and> findTableNumber c s [] = int k"
  then show ?thesis
    by (simp add: setFwmarkRule_allocates)
qed

text \<open>
  Claim C5, as stated, fails for a name longer than the buffer keeps. \<open>addRoute\<close> stores
  the first \<open>IFNAMSIZ\<close> characters of the name, and the lookup compares the whole name
  through its terminator, so the stored name never matches: after a successful \<open>addRoute\<close>
  for the seventeen-character \<open>long_name\<close>, which used slot 0 and table 100, the lookup of
  \<open>long_name\<close> reports not found, and the next \<open>addRoute\<close> for it takes slot 1 and table
  101. The name it stores can also shadow an interface that is tracked: with a
  sixteen-character name found in slot 1 and slot 0 free, an \<open>addRoute\<close> for \<open>long_name\<close>
  writes those sixteen characters into slot 0, and the lookup of the tracked name moves
  from 1 to 0 although slot 1 still holds it.
\<close>

theorem long_name_gets_second_slot:
  "addRoute scenario_constants all_succeed (SecondaryTableController scenario_constants)
     long_name ''10.0.0.0'' 24 ''::'' =
     \<lparr>ret = 0, pool = long_name_routed,
      trace = [Exec [''/system/bin/ip'', ''route'', ''add'', ''10.0.0.0/24'', ''dev'', long_name,
                     ''table'', ''100''],
               SendMsg CommandOkay ''Route modified'' False]\<rparr> \<and>
   findTableNumber scenario_constants long_name_routed long_name = -1 \<and>
   addRoute scenario_constants all_succeed long_name_routed long_name ''10.0.0.0'' 24 ''::'' =
     \<lparr>ret = 0,
      pool = \<lparr>mInterfaceTable = [''abcdefghijklmnop'', ''abcdefghijklmnop''],
              mInterfaceRuleCount = [2, 2]\<rparr>,
      trace = [Exec [''/system/bin/ip'', ''route'', ''add'', ''10.0.0.0/24'', ''dev'', long_name,
                     ''table'', ''101''],
               SendMsg CommandOkay ''Route modified'' False]\<rparr> \<and>
   perform_all scenario_constants (SecondaryTableController scenario_constants)
     [(all_succeed, AddRoute ''lo'' ''10.0.0.0'' 24 ''::''),
      (all_succeed, AddRoute ''abcdefghijklmnop'' ''10.0.0.0'' 24 ''::''),
      (all_succeed, RemoveRoute ''lo'' ''10.0.0.0'' 24 ''::'')] = second_slot_pool \<and>
   findTableNumber scenario_constants second_slot_pool ''abcdefghijklmnop'' = 1 \<and>
   mInterfaceTable
     (pool (addRoute scenario_constants all_fail second_slot_pool long_name ''10.0.0.0'' 24 ''::''))
     ! 1 = ''abcdefghijklmnop'' \<and>
   findTableNumber scenario_constants
     (pool (addRoute scenario_constants all_fail second_slot_pool long_name ''10.0.0.0'' 24 ''::''))
     ''abcdefghijklmnop'' = 0"
  by code_simp

text \<open>
  Claim C5, amended: for an interface name of at most \<open>IFNAMSIZ\<close> characters. If the lookup
  finds it at index \<open>k\<close>, \<open>addRoute\<close> and \<open>setFwmarkRule\<close> run their command on index \<open>k\<close>
  and the lookup finds it at \<open>k\<close> afterwards. If no slot holds it and \<open>k\<close> is the lowest
  free slot, they run their command on index \<open>k\<close> and the lookup finds it at \<open>k\<close>
  afterwards. And whatever request is performed (its own interface name, if it may
  allocate, being no longer than \<open>IFNAMSIZ\<close>), a non-empty name found at index \<open>k\<close> is
  found at \<open>k\<close> afterwards unless slot \<open>k\<close> was released.
\<close>

theorem table_index_stable:
  assumes "well_formed c s" and "length iface \<le> IFNAMSIZ c"
  shows "(findTableNumber c s iface = int k \<longrightarrow>
            hd (trace (addRoute c e s iface dest prefix gateway)) =
              Exec (route_cmd c ADD iface dest prefix gateway (int k)) \<and>
            hd (trace (setFwmarkRule c e s iface add)) = Exec (fwmark_cmd c add (int k)) \<and>
            findTableNumber c (pool (addRoute c e s iface dest prefix gateway)) iface = int k \<and>
            findTableNumber c (pool (setFwmarkRule c e s iface add)) iface = int k) \<and>
         (\<not> tracked c s iface \<and> lowest_free c s k \<longrightarrow>
            hd (trace (addRoute c e s iface dest prefix gateway)) =
              Exec (route_cmd c ADD iface dest prefix gateway (int k)) \<and>
            hd (trace (setFwmarkRule c e s iface add)) = Exec (fwmark_cmd c add (int k)) \<and>
            findTableNumber c (pool (addRoute c e s iface dest prefix gateway)) iface = int k \<and>
            findTableNumber c (pool (setFwmarkRule c e s iface add)) iface = int k) \<and>
         (findTableNumber c s iface = int k \<and> iface \<noteq> [] \<and> fits_buffer c request \<longrightarrow>
            mInterfaceTable (pool (perform c e s request)) ! k = [] \<or>
            findTableNumber c (pool (perform c e s request)) iface = int k)"
proof -
  have found: "hd (trace (addRoute c e s iface dest prefix gateway)) =
              Exec (route_cmd c ADD iface dest prefix gateway (int k)) \<and>
            hd (trace (setFwmarkRule c e s iface add)) = Exec (fwmark_cmd c add (int k)) \<and>
            findTableNumber c (pool (addRoute c e s iface dest prefix gateway)) iface = int k \<and>
            findTableNumber c (pool (setFwmarkRule c e s iface add)) iface = int k"
    if k: "findTableNumber c s iface = int k"
  proof -
    have "findTableNumber c (pool (addRoute c e s iface dest prefix gateway)) iface =
          findTableNumber c s iface"
      by (rule findTableNumber_same_table) (simp add: addRoute_table k)
    moreover have "findTableNumber c (pool (setFwmarkRule c e s iface add)) iface =
          findTableNumber c s iface"
      by (rule findTableNumber_same_table) (simp add: setFwmarkRule_table k)
    ultimately have "findTableNumber c (pool (addRoute c e s iface dest prefix gateway)) iface = int k"
      "findTableNumber c (pool (setFwmarkRule c e s iface add)) iface = int k"
      using k by simp_all
    then show ?thesis
      using k
      by (simp add: addRoute_tracked[OF k] modifyRoute_first_command setFwmarkRule_first_command)
  qed
  have fresh: "hd (trace (addRoute c e s iface dest prefix gateway)) =
              Exec (route_cmd c ADD iface dest prefix gateway (int k)) \<and>
            hd (trace (setFwmarkRule c e s iface add)) = Exec (fwmark_cmd c add (int k)) \<and>
            findTableNumber c (pool (addRoute c e s iface dest prefix gateway)) iface = int k \<and>
            findTableNumber c (pool (setFwmarkRule c e s iface add)) iface = int k"
    if un: "\<not> tracked c s iface" and free: "lowest_free c s k"
  proof -
    have none: "findTableNumber c s iface = -1"
      using assms(1) un by (simp add: findTableNumber_none)
    have slot: "findTableNumber c s [] = int k"
      using free by (simp add: findTableNumber_empty_some)
    have "findTableNumber c (pool (addRoute c e s iface dest prefix gateway)) iface = int k"
      using assms un free addRoute_well_formed[OF assms(1)] addRoute_table
      by (rule allocation_found_again)
    moreover have "findTableNumber c (pool (setFwmarkRule c e s iface add)) iface = int k"
      using assms un free setFwmarkRule_well_formed[OF assms(1)] setFwmarkRule_table
      by (rule allocation_found_again)
    ultimately show ?thesis
      using none slot
      by (simp add: addRoute_allocates[OF none slot] modifyRoute_first_command
          setFwmarkRule_first_command)
  qed
  have kept: "mInterfaceTable (pool (perform c e s request)) ! k = [] \<or>
            findTableNumber c (pool (perform c e s request)) iface = int k"
    if "findTableNumber c s iface = int k" and "iface \<noteq> []" and "fits_buffer c request"
    using assms(1) that by (rule perform_keeps_index)
  show ?thesis
    using found fresh kept by blast
qed

theorem table_index_stable_witness:
  "well_formed demo_constants demo_pool \<and>
   findTableNumber demo_constants demo_pool ''eth0'' = 2 \<and>
   findTableNumber demo_constants
     (pool (addRoute demo_constants all_succeed demo_pool ''eth0'' ''10.0.0.0'' 24 ''::'')) ''eth0'' = 2 \<and>
   findTableNumber demo_constants
     (pool (setFwmarkRule demo_constants all_succeed demo_pool ''eth0'' False)) ''eth0'' = 2 \<and>
   findTableNumber demo_constants
     (pool (addRoute demo_constants all_fail demo_pool ''rmnet0'' ''10.0.0.0'' 24 ''::'')) ''rmnet0'' = 1 \<and>
   findTableNumber demo_constants
     (pool (setFwmarkRule demo_constants all_succeed demo_pool ''rmnet0'' True)) ''rmnet0'' = 1 \<and>
   findTableNumber demo_constants
     (pool (perform demo_constants all_succeed demo_pool (RemoveRoute ''wlan0'' ''10.0.0.0'' 24 ''::'')))
     ''eth0'' = 2"
proof -
  have wf: "well_formed demo_constants demo_pool"
    by code_simp
  have short: "length ''eth0'' \<le> IFNAMSIZ demo_constants"
    "length ''rmnet0'' \<le> IFNAMSIZ demo_constants"
    by (simp_all add: demo_constants_def)
  have found: "findTableNumber demo_constants demo_pool ''eth0'' = int 2"
    by code_simp
  have un: "\<not> tracked demo_constants demo_pool ''rmnet0''"
    by code_simp
  have free: "lowest_free demo_constants demo_pool 1"
    by code_simp
  have fits: "fits_buffer demo_constants (RemoveRoute ''wlan0'' ''10.0.0.0'' 24 ''::'')"
    by (simp add: fits_buffer_def)
  have named: "mInterfaceTable
     (pool (perform demo_constants all_succeed demo_pool (RemoveRoute ''wlan0'' ''10.0.0.0'' 24 ''::'')))
     ! 2 \<noteq> []"
    by code_simp
  have t1: "findTableNumber demo_constants
     (pool (addRoute demo_constants all_succeed demo_pool ''eth0'' ''10.0.0.0'' 24 ''::'')) ''eth0'' = int 2 \<and>
   findTableNumber demo_constants
     (pool (setFwmarkRule demo_constants all_succeed demo_pool ''eth0'' False)) ''eth0'' = int 2"
    using table_index_stable[OF wf short(1), of 2 all_succeed "''10.0.0.0''" 24 "''::''" False
        "RemoveRoute ''wlan0'' ''10.0.0.0'' 24 ''::''"] found
    by blast
  have t2: "findTableNumber demo_constants
     (pool (addRoute demo_constants all_fail demo_pool ''rmnet0'' ''10.0.0.0'' 24 ''::'')) ''rmnet0'' = int 1"
    using table_index_stable[OF wf short(2), of 1 all_fail "''10.0.0.0''" 24 "''::''" True
        "RemoveRoute ''wlan0'' ''10.0.0.0'' 24 ''::''"] un free
    by blast
  have t3: "findTableNumber demo_constants
     (pool (setFwmarkRule demo_constants all_succeed demo_pool ''rmnet0'' True)) ''rmnet0'' = int 1"
    using table_index_stable[OF wf short(2), of 1 all_succeed "''10.0.0.0''" 24 "''::''" True
        "RemoveRoute ''wlan0'' ''10.0.0.0'' 24 ''::''"] un free
    by blast
  have t4: "findTableNumber demo_constants
     (pool (perform demo_constants all_succeed demo_pool (RemoveRoute ''wlan0'' ''10.0.0.0'' 24 ''::'')))
     ''eth0'' = int 2"
    using table_index_stable[OF wf short(1), of 2 all_succeed "''10.0.0.0''" 24 "''::''" False
        "RemoveRoute ''wlan0'' ''10.0.0.0'' 24 ''::''"] found fits named
    by blast
  show ?thesis
    using wf found t1 t2 t3 t4 by simp
qed

end
